theory Spec2Isabelle
  imports Complex_Main "HOL-Library.Word"
begin

unbundle bit_operations_syntax

section \<open>Machine types\<close>

text \<open>
  The C types of the two programs on the platforms they are written for:
  \<open>int\<close> and \<open>unsigned int\<close> are 32 bits wide, \<open>short\<close> 16 bits,
  \<open>unsigned char\<close> 8 bits,
  \<open>unsigned long long\<close> and \<open>size_t\<close> 64 bits. A signed value is kept as
  its two's complement bit pattern; the programs only test such values for (in)equality
  and combine them with bitwise or, which agree on the bit pattern.
\<close>

type_synonym c_int = "32 word"
type_synonym c_uint = "32 word"
type_synonym c_short = "16 word"
type_synonym c_uchar = "8 word"
type_synonym c_ulonglong = "64 word"
type_synonym c_size_t = "64 word"

text \<open>
  A \<open>double\<close> is only stored and compared with \<open>!=\<close> by the code modelled
  here. Every finite double is a rational; \<open>!=\<close> is true whenever an operand is a NaN.
\<close>

datatype c_double = Finite rat | Infinite bool | NaN

definition double_ne :: "c_double \<Rightarrow> c_double \<Rightarrow> bool" where
  "double_ne a b = (a = NaN \<or> b = NaN \<or> a \<noteq> b)"

section \<open>The vendor interface\<close>

text \<open>
  Modelled from the spec: the vendor header \<open>sdrplay_api.h\<close> is not part of the
  sources. Of each enumeration only the enumerators the programs name are told apart;
  every other value is kept with its number. In the vendor's gain structure the field
  \<open>gRdB\<close> is an \<open>int\<close> and the field \<open>LNAstate\<close> is an
  \<open>unsigned char\<close>: a store of an \<open>int\<close> into \<open>LNAstate\<close> keeps its low
  8 bits.
\<close>

datatype sdrplay_api_ErrT = sdrplay_api_Success | sdrplay_api_Failure nat

datatype sdrplay_api_TunerSelectT = sdrplay_api_Tuner_A | sdrplay_api_Tuner_other nat

datatype sdrplay_api_RspDuoModeT =
    sdrplay_api_RspDuoMode_Unknown
  | sdrplay_api_RspDuoMode_Single_Tuner
  | sdrplay_api_RspDuoMode_other nat

datatype hw_version = SDRPLAY_RSPduo_ID | SDRPLAY_other_ID nat

text \<open>The two fields of \<open>sdrplay_api_StreamCbParamsT\<close> the callbacks read.\<close>

record StreamCbParams =
  firstSampleNum :: c_uint
  grChanged :: c_int

text \<open>The calls into the vendor library that \<open>main\<close> makes once the device is set up.\<close>

datatype api_call =
    sdrplay_api_Init_no_callbacks
  | sdrplay_api_Init_rx_callback
  | sdrplay_api_Uninit
  | sdrplay_api_Update_Tuner_Gr
  | sdrplay_api_LockDeviceApi
  | sdrplay_api_UnlockDeviceApi
  | sdrplay_api_ReleaseDevice
  | sdrplay_api_Close

section \<open>single\_tuner\_gain\_changes.c\<close>

definition UpdateTimeout :: nat where
  "UpdateTimeout = 10000"

definition ProgressEveryNGainChanges :: c_uint where
  "ProgressEveryNGainChanges = 1000"

record RXContext =
  total_samples :: c_ulonglong
  next_sample_num :: c_uint
  gain_reduction_changed :: c_int
  verbose :: c_int

text \<open>What the program prints on stderr, one constructor per format string.\<close>

datatype readback_field =
    F_tuner | F_rspDuoMode | F_rspDuoSampleFreq | F_fsHz | F_decimation_enable
  | F_decimationFactor | F_ifType | F_bwType | F_gRdB | F_LNAstate | F_DCenable
  | F_IQenable | F_dcCal | F_speedUp | F_trackTime | F_refreshRateTime | F_rfHz

datatype message =
    grChanged_msg c_int
  | reset_msg c_uint
  | jump_msg c_uint c_uint
  | settings_msg
  | unexpected_change_msg readback_field
  | api_failed_msg api_call sdrplay_api_ErrT
  | changing_gains_msg c_uint
  | progress_msg c_uint
  | update_failed_msg sdrplay_api_ErrT c_uint
  | elapsed_msg c_uint nat
  | timeout_msg

text \<open>
  What the program does that can be seen from outside, in order: calls into the vendor
  library, lines printed, the stores into the pending gain parameters and into the shared
  flag, and the sleeps. A store carries the value that the field holds after it.
\<close>

datatype event =
    Call api_call
  | Print message
  | Write_gRdB c_int
  | Write_LNAstate c_uchar
  | Reset_flag
  | Usleep c_uint

subsection \<open>The sample callback\<close>

definition rx_callback :: "StreamCbParams \<Rightarrow> c_uint \<Rightarrow> c_uint \<Rightarrow> RXContext \<Rightarrow> RXContext \<times> message list" where
  "rx_callback params numSamples reset rx_context =
     (let m1 = (if verbose rx_context \<noteq> 0 \<and> grChanged params \<noteq> 0
                then [grChanged_msg (grChanged params)] else []);
          c1 = rx_context\<lparr>gain_reduction_changed :=
                 gain_reduction_changed rx_context OR grChanged params\<rparr>;
          m2 = (if reset \<noteq> 0 then [reset_msg reset] else []);
          m3 = (if next_sample_num c1 \<noteq> 0xffffffff \<and> firstSampleNum params \<noteq> next_sample_num c1
                then [jump_msg (next_sample_num c1) (firstSampleNum params)] else []);
          c2 = c1\<lparr>next_sample_num := firstSampleNum params + numSamples\<rparr>;
          c3 = c2\<lparr>total_samples := total_samples c2 + ucast numSamples\<rparr>
      in (c3, m1 @ m2 @ m3))"

text \<open>
  The vendor library calls \<open>rx_callback\<close> from its own thread. A delivery is one
  such call: the parameter block, \<open>numSamples\<close> and \<open>reset\<close> (the callback ignores
  the sample buffers). A callback is taken to run as a whole between two accesses of
  \<open>main\<close> to the shared context.
\<close>

type_synonym delivery = "StreamCbParams \<times> c_uint \<times> c_uint"

fun deliver :: "delivery list \<Rightarrow> RXContext \<Rightarrow> RXContext \<times> event list" where
  "deliver [] rx_context = (rx_context, [])"
| "deliver ((params, numSamples, reset) # ds) rx_context =
     (let (c1, ms) = rx_callback params numSamples reset rx_context;
          (c2, es) = deliver ds c1
      in (c2, map Print ms @ es))"

subsection \<open>Waiting for one gain change\<close>

text \<open>
  The loop \<open>for (elapsed = 0; elapsed < UpdateTimeout; elapsed++)\<close> of \<open>main\<close>.
  \<open>polls i\<close> are the deliveries that arrive during the \<open>usleep(1)\<close> of iteration
  \<open>i\<close>. The result is \<open>elapsed\<close> at the exit of the loop, the context and the
  events of the loop. \<open>elapsed\<close> stays between 0 and 10000 and is kept as a natural
  number.
\<close>

function wait_for_gain_change ::
    "(nat \<Rightarrow> delivery list) \<Rightarrow> nat \<Rightarrow> c_int \<Rightarrow> RXContext \<Rightarrow> nat \<times> RXContext \<times> event list" where
  "wait_for_gain_change polls elapsed prev_gain_reduction_changed rx_context =
     (if elapsed < UpdateTimeout then
        (let curr_gain_reduction_changed = gain_reduction_changed rx_context in
         if prev_gain_reduction_changed = 0 \<and> curr_gain_reduction_changed \<noteq> 0 then
           (elapsed, rx_context, [])
         else
           (let (c1, es) = deliver (polls elapsed) rx_context;
                (n, c2, es') = wait_for_gain_change polls (elapsed + 1) curr_gain_reduction_changed c1
            in (n, c2, Usleep 1 # es @ es')))
      else (elapsed, rx_context, []))"
  by pat_completeness auto
termination
  by (relation "measure (\<lambda>(polls, elapsed, prev, rx_context). UpdateTimeout - elapsed)") auto

declare wait_for_gain_change.simps [simp del]

subsection \<open>The options of \<open>main\<close>\<close>

text \<open>
  The local variables of \<open>main\<close> that the option parser fills. The arrays
  \<open>gRdBs\<close> and \<open>LNAstates\<close> are lists; their counts \<open>ngRdBs\<close> and
  \<open>nLNAstates\<close> are C \<open>int\<close>s holding the number of elements.
\<close>

record config =
  rsp_sample_rate :: c_double
  decimation :: c_int
  if_frequency :: c_int
  if_bandwidth :: c_int
  gRdBs :: "c_int list"
  LNAstates :: "c_int list"
  DCenable :: c_int
  IQenable :: c_int
  dcCal :: c_int
  speedUp :: c_int
  trackTime :: c_int
  refreshRateTime :: c_int
  frequency :: c_double
  num_gain_changes :: c_uint
  wait_time :: c_uint
  verbose_opt :: c_int

definition ngRdBs :: "config \<Rightarrow> c_int" where
  "ngRdBs cfg = word_of_nat (length (gRdBs cfg))"

definition nLNAstates :: "config \<Rightarrow> c_int" where
  "nLNAstates cfg = word_of_nat (length (LNAstates cfg))"

subsection \<open>Selecting the next gain\<close>

text \<open>
  \<open>array[ngc % n]\<close> with \<open>ngc\<close> an \<open>unsigned int\<close> and \<open>n\<close> an \<open>int\<close>:
  the count is converted to \<open>unsigned int\<close> and the remainder is unsigned. A zero
  divisor and a read outside the array are undefined in C: the result is \<open>None\<close>.
\<close>

definition array_mod_read :: "c_int list \<Rightarrow> c_int \<Rightarrow> c_uint \<Rightarrow> c_int option" where
  "array_mod_read arr n ngc =
     (if n = 0 then None
      else if unat (ngc mod n) < length arr then Some (arr ! unat (ngc mod n))
      else None)"

definition next_gain :: "config \<Rightarrow> c_uint \<Rightarrow> (c_int \<times> c_int) option" where
  "next_gain cfg ngc =
     (case array_mod_read (gRdBs cfg) (ngRdBs cfg) ngc of
        None \<Rightarrow> None
      | Some g \<Rightarrow>
          (case array_mod_read (LNAstates cfg) (nLNAstates cfg) ngc of
             None \<Rightarrow> None
           | Some l \<Rightarrow> Some (g, l)))"

subsection \<open>One gain change\<close>

text \<open>
  What the device and its driver do during one iteration of the loop over \<open>ngc\<close>:
  the deliveries during \<open>usleep(wait_time)\<close>, the result of
  \<open>sdrplay_api_Update\<close>, the deliveries between the reset of the flag and the first
  read of the wait loop (in particular those made inside \<open>sdrplay_api_Update\<close>),
  the deliveries during each \<open>usleep(1)\<close>, and those between the wait loop and the
  last read of the flag.
\<close>

record change_env =
  during_wait :: "delivery list"
  update_result :: sdrplay_api_ErrT
  during_update :: "delivery list"
  during_poll :: "nat \<Rightarrow> delivery list"
  after_poll :: "delivery list"

datatype flow = Continue | Exit_1 | Undefined

text \<open>
  The first half of the loop body: the sleep, the two stores into the pending gain
  parameters, the reset of the flag and the call of \<open>sdrplay_api_Update\<close>. The
  store into \<open>gain.LNAstate\<close> converts the selected \<open>int\<close> to
  \<open>unsigned char\<close>. The result is the context as the wait loop finds it, and the
  events so far.
\<close>

definition issue_update ::
    "config \<Rightarrow> change_env \<Rightarrow> c_uint \<Rightarrow> RXContext \<Rightarrow> (RXContext \<times> event list) option" where
  "issue_update cfg ce ngc rx_context =
     (let (c1, e1) = deliver (during_wait ce) rx_context in
      case next_gain cfg ngc of
        None \<Rightarrow> None
      | Some (g, l) \<Rightarrow>
          (let c2 = c1\<lparr>gain_reduction_changed := 0\<rparr>;
               (c3, e3) = deliver (during_update ce) c2
           in Some (c3, Usleep (wait_time cfg) # e1 @
                        [Write_gRdB g, Write_LNAstate (ucast l), Reset_flag,
                         Call sdrplay_api_Update_Tuner_Gr] @ e3)))"

text \<open>
  The second half, after a successful update: the progress line, the wait loop, the
  verbose line and the timeout warning.
\<close>

definition await_update ::
    "config \<Rightarrow> change_env \<Rightarrow> c_uint \<Rightarrow> RXContext \<Rightarrow> RXContext \<times> event list" where
  "await_update cfg ce ngc c3 =
     (let e4 = (if ngc mod ProgressEveryNGainChanges = 0 then [Print (progress_msg ngc)] else []);
          (elapsed, c5, e5) = wait_for_gain_change (during_poll ce) 0 (- 1) c3;
          e6 = (if verbose_opt cfg \<noteq> 0 then [Print (elapsed_msg ngc elapsed)] else []);
          (c7, e7) = deliver (after_poll ce) c5;
          e8 = (if gain_reduction_changed c7 = 0 then [Print timeout_msg] else [])
      in (c7, e4 @ e5 @ e6 @ e7 @ e8))"

definition one_gain_change ::
    "config \<Rightarrow> change_env \<Rightarrow> c_uint \<Rightarrow> RXContext \<Rightarrow> flow \<times> RXContext \<times> event list" where
  "one_gain_change cfg ce ngc rx_context =
     (case issue_update cfg ce ngc rx_context of
        None \<Rightarrow> (Undefined, rx_context, [])
      | Some (c3, start) \<Rightarrow>
          if update_result ce \<noteq> sdrplay_api_Success then
            (Exit_1, c3,
             start @ [Print (update_failed_msg (update_result ce) ngc),
                      Call sdrplay_api_ReleaseDevice, Call sdrplay_api_Close])
          else
            (let (c7, es) = await_update cfg ce ngc c3 in (Continue, c7, start @ es)))"

subsection \<open>The loop over the gain changes\<close>

text \<open>\<open>for (unsigned int ngc = 1; ngc < num_gain_changes; ngc++)\<close>, entered at \<open>ngc\<close>.\<close>

function gain_change_loop ::
    "config \<Rightarrow> (c_uint \<Rightarrow> change_env) \<Rightarrow> c_uint \<Rightarrow> RXContext \<Rightarrow> flow \<times> RXContext \<times> event list" where
  "gain_change_loop cfg env ngc rx_context =
     (if ngc < num_gain_changes cfg then
        (case one_gain_change cfg (env ngc) ngc rx_context of
           (Continue, c1, es) \<Rightarrow>
             (let (fl, c2, es') = gain_change_loop cfg env (ngc + 1) c1 in (fl, c2, es @ es'))
         | (fl, c1, es) \<Rightarrow> (fl, c1, es))
      else (Continue, rx_context, []))"
  by pat_completeness auto
termination
proof (relation "measure (\<lambda>(cfg, env, ngc, rx_context). unat (num_gain_changes cfg) - unat ngc)")
  show "wf (measure (\<lambda>(cfg, env, ngc, rx_context). unat (num_gain_changes cfg) - unat ngc))"
    by simp
next
  fix cfg :: config and env :: "c_uint \<Rightarrow> change_env" and ngc :: c_uint and rx_context :: RXContext
    and x :: "flow \<times> RXContext \<times> event list" and x1 :: flow and x2 :: "RXContext \<times> event list"
    and x1a :: RXContext and x2a :: "event list"
  assume lt: "ngc < num_gain_changes cfg"
  then have "unat (ngc + 1) = unat ngc + 1"
    by (metis (no_types, lifting) add_cancel_left_left inc_i
        linorder_le_less_linear olen_add_eqv unat_plus_simple unsigned_0
        unsigned_1 word_less_1)
  moreover from lt have "unat ngc < unat (num_gain_changes cfg)"
    by (simp add: word_less_nat_alt)
  ultimately show "((cfg, env, ngc + 1, x1a), cfg, env, ngc, rx_context)
      \<in> measure (\<lambda>(cfg, env, ngc, rx_context). unat (num_gain_changes cfg) - unat ngc)"
    by simp
qed

declare gain_change_loop.simps [simp del]

subsection \<open>The readback check\<close>

text \<open>
  The fields of \<open>device\<close>, \<open>device_params\<close> and \<open>rx_channel_params\<close> as
  \<open>main\<close> reads them after the first \<open>sdrplay_api_Init\<close>. Integer fields hold
  the value after C's integer promotion, which is what \<open>!=\<close> compares. Before that
  call \<open>main\<close> also stores \<open>sdrplay_api_AGC_DISABLE\<close> into \<open>agc.enable\<close>;
  this program never reads that field back, so it is not part of the record.
\<close>

record device_state =
  hwVer :: hw_version
  tuner :: sdrplay_api_TunerSelectT
  rspDuoMode :: sdrplay_api_RspDuoModeT
  rspDuoSampleFreq :: c_double
  fsFreq_fsHz :: c_double
  decimation_enable :: c_int
  decimation_decimationFactor :: c_int
  tunerParams_ifType :: c_int
  tunerParams_bwType :: c_int
  gain_gRdB :: c_int
  gain_LNAstate :: c_int
  dcOffset_DCenable :: c_int
  dcOffset_IQenable :: c_int
  dcOffsetTuner_dcCal :: c_int
  dcOffsetTuner_speedUp :: c_int
  dcOffsetTuner_trackTime :: c_int
  dcOffsetTuner_refreshRateTime :: c_int
  rfFreq_rfHz :: c_double

text \<open>The C value of \<open>decimation > 1\<close>: a signed comparison, 1 or 0.\<close>

definition decimation_gt_1 :: "config \<Rightarrow> c_int" where
  "decimation_gt_1 cfg = (if 1 <s decimation cfg then 1 else 0)"

text \<open>One \<open>if (...) { fprintf(stderr, "unexpected change ..."); init_ok = 0; }\<close>.\<close>

definition unexpected :: "bool \<Rightarrow> readback_field \<Rightarrow> bool \<times> message list \<Rightarrow> bool \<times> message list" where
  "unexpected differs f st =
     (if differs then (False, snd st @ [unexpected_change_msg f]) else st)"

text \<open>The checks in the order of the source, the first one innermost.\<close>

definition readback_check :: "config \<Rightarrow> device_state \<Rightarrow> bool \<times> message list" where
  "readback_check cfg d =
     (unexpected (double_ne (rfFreq_rfHz d) (frequency cfg)) F_rfHz
     (unexpected (dcOffsetTuner_refreshRateTime d \<noteq> refreshRateTime cfg) F_refreshRateTime
     (unexpected (dcOffsetTuner_trackTime d \<noteq> trackTime cfg) F_trackTime
     (unexpected (dcOffsetTuner_speedUp d \<noteq> speedUp cfg) F_speedUp
     (unexpected (dcOffsetTuner_dcCal d \<noteq> dcCal cfg) F_dcCal
     (unexpected (dcOffset_IQenable d \<noteq> IQenable cfg) F_IQenable
     (unexpected (dcOffset_DCenable d \<noteq> DCenable cfg) F_DCenable
     (unexpected (gain_LNAstate d \<noteq> LNAstates cfg ! 0) F_LNAstate
     (unexpected (gain_gRdB d \<noteq> gRdBs cfg ! 0) F_gRdB
     (unexpected (tunerParams_bwType d \<noteq> if_bandwidth cfg) F_bwType
     (unexpected (tunerParams_ifType d \<noteq> if_frequency cfg) F_ifType
     (unexpected (decimation_decimationFactor d \<noteq> decimation cfg) F_decimationFactor
     (unexpected (decimation_enable d \<noteq> decimation_gt_1 cfg) F_decimation_enable
     (unexpected (double_ne (fsFreq_fsHz d) (rsp_sample_rate cfg)) F_fsHz
     (unexpected (double_ne (rspDuoSampleFreq d) (Finite 0)) F_rspDuoSampleFreq
     (unexpected (if hwVer d = SDRPLAY_RSPduo_ID
                  then rspDuoMode d \<noteq> sdrplay_api_RspDuoMode_Single_Tuner
                  else rspDuoMode d \<noteq> sdrplay_api_RspDuoMode_Unknown) F_rspDuoMode
     (unexpected (tuner d \<noteq> sdrplay_api_Tuner_A) F_tuner
     (True, []))))))))))))))))))"

subsection \<open>\<open>main\<close>, from the first \<open>sdrplay_api_Init\<close> to its end\<close>

text \<open>
  The results of the vendor calls, and the deliveries of each gain change. \<open>main\<close>
  is modelled from the "quick check" on: the device has been opened and selected and the
  settings have been written. The result is the events in order and the exit status
  (0 from \<open>return 0\<close>, 1 from \<open>exit(1)\<close>), or \<open>None\<close> where C leaves the
  behaviour undefined.
\<close>

record main_env =
  init_quick_result :: sdrplay_api_ErrT
  uninit_quick_result :: sdrplay_api_ErrT
  init_result :: sdrplay_api_ErrT
  changes :: "c_uint \<Rightarrow> change_env"
  uninit_result :: sdrplay_api_ErrT
  lock_result :: sdrplay_api_ErrT
  release_result :: sdrplay_api_ErrT
  unlock_result :: sdrplay_api_ErrT
  close_result :: sdrplay_api_ErrT

definition failed :: "api_call \<Rightarrow> sdrplay_api_ErrT \<Rightarrow> event" where
  "failed c err = Print (api_failed_msg c err)"

definition release_and_close :: "main_env \<Rightarrow> event list \<times> nat option" where
  "release_and_close env =
     (if uninit_result env \<noteq> sdrplay_api_Success then
        ([Call sdrplay_api_Uninit, failed sdrplay_api_Uninit (uninit_result env),
          Call sdrplay_api_ReleaseDevice, Call sdrplay_api_Close], Some 1)
      else if lock_result env \<noteq> sdrplay_api_Success then
        ([Call sdrplay_api_Uninit, Call sdrplay_api_LockDeviceApi,
          failed sdrplay_api_LockDeviceApi (lock_result env), Call sdrplay_api_Close], Some 1)
      else if release_result env \<noteq> sdrplay_api_Success then
        ([Call sdrplay_api_Uninit, Call sdrplay_api_LockDeviceApi, Call sdrplay_api_ReleaseDevice,
          failed sdrplay_api_ReleaseDevice (release_result env),
          Call sdrplay_api_UnlockDeviceApi, Call sdrplay_api_Close], Some 1)
      else if unlock_result env \<noteq> sdrplay_api_Success then
        ([Call sdrplay_api_Uninit, Call sdrplay_api_LockDeviceApi, Call sdrplay_api_ReleaseDevice,
          Call sdrplay_api_UnlockDeviceApi, failed sdrplay_api_UnlockDeviceApi (unlock_result env),
          Call sdrplay_api_Close], Some 1)
      else if close_result env \<noteq> sdrplay_api_Success then
        ([Call sdrplay_api_Uninit, Call sdrplay_api_LockDeviceApi, Call sdrplay_api_ReleaseDevice,
          Call sdrplay_api_UnlockDeviceApi, Call sdrplay_api_Close,
          failed sdrplay_api_Close (close_result env)], Some 1)
      else
        ([Call sdrplay_api_Uninit, Call sdrplay_api_LockDeviceApi, Call sdrplay_api_ReleaseDevice,
          Call sdrplay_api_UnlockDeviceApi, Call sdrplay_api_Close], Some 0))"

definition initial_rx_context :: "config \<Rightarrow> RXContext" where
  "initial_rx_context cfg =
     \<lparr>total_samples = 0, next_sample_num = 0xffffffff, gain_reduction_changed = 0,
      verbose = verbose_opt cfg\<rparr>"

definition change_gains :: "config \<Rightarrow> main_env \<Rightarrow> event list \<times> nat option" where
  "change_gains cfg env =
     (case gain_change_loop cfg (changes env) 1 (initial_rx_context cfg) of
        (Continue, c, es) \<Rightarrow>
          (let (es', status) = release_and_close env
           in (Print (changing_gains_msg (wait_time cfg)) # es @ es', status))
      | (Exit_1, c, es) \<Rightarrow> (Print (changing_gains_msg (wait_time cfg)) # es, Some 1)
      | (Undefined, c, es) \<Rightarrow> (Print (changing_gains_msg (wait_time cfg)) # es, None))"

definition main_from_quick_check :: "config \<Rightarrow> device_state \<Rightarrow> main_env \<Rightarrow> event list \<times> nat option" where
  "main_from_quick_check cfg d env =
     (if gRdBs cfg = [] \<or> LNAstates cfg = [] then ([], None)
      else if init_quick_result env \<noteq> sdrplay_api_Success then
        ([Call sdrplay_api_Init_no_callbacks,
          failed sdrplay_api_Init_no_callbacks (init_quick_result env),
          Call sdrplay_api_ReleaseDevice, Call sdrplay_api_Close], Some 1)
      else
        (let (init_ok, ms) = readback_check cfg d in
         if \<not> init_ok then
           (Call sdrplay_api_Init_no_callbacks # Print settings_msg # map Print ms @
            [Call sdrplay_api_Uninit, Call sdrplay_api_ReleaseDevice, Call sdrplay_api_Close],
            Some 1)
         else if uninit_quick_result env \<noteq> sdrplay_api_Success then
           (Call sdrplay_api_Init_no_callbacks # Print settings_msg # map Print ms @
            [Call sdrplay_api_Uninit, failed sdrplay_api_Uninit (uninit_quick_result env),
             Call sdrplay_api_ReleaseDevice, Call sdrplay_api_Close], Some 1)
         else if init_result env \<noteq> sdrplay_api_Success then
           (Call sdrplay_api_Init_no_callbacks # Print settings_msg # map Print ms @
            [Call sdrplay_api_Uninit, Call sdrplay_api_Init_rx_callback,
             failed sdrplay_api_Init_rx_callback (init_result env),
             Call sdrplay_api_ReleaseDevice, Call sdrplay_api_Close], Some 1)
         else
           (let (es, status) = change_gains cfg env
            in (Call sdrplay_api_Init_no_callbacks # Print settings_msg # map Print ms @
                [Call sdrplay_api_Uninit, Call sdrplay_api_Init_rx_callback] @ es, status))))"

subsection \<open>The reads of the flag in the wait loop\<close>

text \<open>
  \<open>context_at polls c i\<close> is the shared context after the deliveries of the first
  \<open>i\<close> sleeps of a wait loop entered with context \<open>c\<close>, and \<open>flag_read polls c i\<close>
  the value that iteration \<open>i\<close> of the loop reads from the flag, if the loop gets there.
\<close>

primrec context_at :: "(nat \<Rightarrow> delivery list) \<Rightarrow> RXContext \<Rightarrow> nat \<Rightarrow> RXContext" where
  "context_at polls c 0 = c"
| "context_at polls c (Suc i) = fst (deliver (polls i) (context_at polls c i))"

definition flag_read :: "(nat \<Rightarrow> delivery list) \<Rightarrow> RXContext \<Rightarrow> nat \<Rightarrow> c_int" where
  "flag_read polls c i = gain_reduction_changed (context_at polls c i)"

text \<open>The events that come from \<open>rx_callback\<close>.\<close>

fun callback_event :: "event \<Rightarrow> bool" where
  "callback_event (Print (grChanged_msg v)) = True"
| "callback_event (Print (reset_msg v)) = True"
| "callback_event (Print (jump_msg a b)) = True"
| "callback_event e = False"

section \<open>single\_tuner\_recorder.c\<close>

record timeval =
  tv_sec :: "64 word"
  tv_usec :: "64 word"

record RXContextRecord =
  earliest_callback :: timeval
  latest_callback :: timeval
  total_samples_rec :: c_ulonglong
  next_sample_num_rec :: c_uint
  output_fd :: c_int
  imin :: c_short
  imax :: c_short
  qmin :: c_short
  qmax :: c_short

definition SHRT_MAX :: c_short where
  "SHRT_MAX = 0x7fff"

definition SHRT_MIN :: c_short where
  "SHRT_MIN = 0x8000"

definition UINT_MAX :: c_uint where
  "UINT_MAX = 0xffffffff"

datatype rec_message =
    dropped_msg c_uint
  | write_failed_msg
  | incomplete_write_msg c_size_t "64 word"

text \<open>
  The events of the recorder's callback: a line on stderr, or the call
  \<open>write(output_fd, samples, count)\<close> with the shorts that lie in the first
  \<open>count\<close> bytes of the buffer.
\<close>

datatype rec_event =
    Log rec_message
  | Write_file c_int "c_short list" c_size_t

text \<open>The check for dropped samples.\<close>

definition dropped_check :: "c_uint \<Rightarrow> StreamCbParams \<Rightarrow> rec_message list" where
  "dropped_check next_num params =
     (if next_num \<noteq> 0xffffffff \<and> firstSampleNum params \<noteq> next_num then
        [dropped_msg
           (if next_num < firstSampleNum params then firstSampleNum params - next_num
            else UINT_MAX - (firstSampleNum params - next_num) + 1)]
      else [])"

text \<open>
  The loops \<open>for (unsigned int i = 0; i < numSamples; i++)\<close>. The index stays below
  \<open>numSamples\<close>, so it never wraps and is kept as a natural number. A read or a
  store outside an array is undefined in C: the result is \<open>None\<close>.

  The loop over \<open>xi\<close> or \<open>xq\<close> that tracks the minimum and the maximum, with
  signed comparisons.
\<close>

function min_max_loop ::
    "c_short list \<Rightarrow> nat \<Rightarrow> nat \<Rightarrow> c_short \<times> c_short \<Rightarrow> (c_short \<times> c_short) option" where
  "min_max_loop xs numSamples i mm =
     (if i < numSamples then
        (if i < length xs then
           min_max_loop xs numSamples (Suc i)
             (if fst mm <s xs ! i then fst mm else xs ! i,
              if xs ! i <s snd mm then snd mm else xs ! i)
         else None)
      else Some mm)"
  by pat_completeness auto
termination
  by (relation "measure (\<lambda>(xs, numSamples, i, mm). numSamples - i)") auto

declare min_max_loop.simps [simp del]

text \<open>
  The loops that fill \<open>samples\<close>: \<open>samples[2*i] = xi[i]\<close> with offset 0 and
  \<open>samples[2*i+1] = xq[i]\<close> with offset 1. The index is computed in
  \<open>unsigned int\<close>.
\<close>

definition sample_index :: "nat \<Rightarrow> nat \<Rightarrow> nat" where
  "sample_index i off = unat (2 * (word_of_nat i :: c_uint) + word_of_nat off)"

function interleave_loop ::
    "c_short list \<Rightarrow> nat \<Rightarrow> nat \<Rightarrow> nat \<Rightarrow> c_short list \<Rightarrow> c_short list option" where
  "interleave_loop xs numSamples off i samples =
     (if i < numSamples then
        (if i < length xs \<and> sample_index i off < length samples then
           interleave_loop xs numSamples off (Suc i) (samples[sample_index i off := xs ! i])
         else None)
      else Some samples)"
  by pat_completeness auto
termination
  by (relation "measure (\<lambda>(xs, numSamples, off, i, samples). numSamples - i)") auto

declare interleave_loop.simps [simp del]

text \<open>
  \<open>short samples[4096]\<close> is not initialised: \<open>uninit\<close> is what the stack holds.
  \<open>count = numSamples * 2 * sizeof(short)\<close>: the first product is an
  \<open>unsigned int\<close>, the second a \<open>size_t\<close>.
\<close>

definition write_samples ::
    "(nat \<Rightarrow> c_short) \<Rightarrow> c_short list \<Rightarrow> c_short list \<Rightarrow> c_uint \<Rightarrow> (c_short list \<times> c_size_t) option" where
  "write_samples uninit xi xq numSamples =
     (case interleave_loop xi (unat numSamples) 0 0 (map uninit [0..<4096]) of
        None \<Rightarrow> None
      | Some s1 \<Rightarrow>
          (case interleave_loop xq (unat numSamples) 1 0 s1 of
             None \<Rightarrow> None
           | Some samples \<Rightarrow>
               (let count = ucast (numSamples * 2) * 2
                in Some (take (unat count div 2) samples, count))))"

text \<open>
  The callback. \<open>now\<close> is what \<open>gettimeofday\<close> returns and \<open>nwritten\<close> what
  \<open>write\<close> returns.
\<close>

definition rx_callback_record ::
    "timeval \<Rightarrow> (nat \<Rightarrow> c_short) \<Rightarrow> 64 word \<Rightarrow> c_short list \<Rightarrow> c_short list \<Rightarrow> StreamCbParams \<Rightarrow>
     c_uint \<Rightarrow> c_uint \<Rightarrow> RXContextRecord \<Rightarrow> (RXContextRecord \<times> rec_event list) option" where
  "rx_callback_record now uninit nwritten xi xq params numSamples reset rxContext =
     (let c1 = rxContext\<lparr>latest_callback := now\<rparr>;
          c2 = (if tv_sec (earliest_callback c1) = 0
                then c1\<lparr>earliest_callback := latest_callback c1\<rparr> else c1);
          c3 = c2\<lparr>total_samples_rec := total_samples_rec c2 + ucast numSamples\<rparr>;
          m1 = dropped_check (next_sample_num_rec c3) params;
          c4 = c3\<lparr>next_sample_num_rec := firstSampleNum params + numSamples\<rparr>
      in case min_max_loop xi (unat numSamples) 0 (SHRT_MAX, SHRT_MIN) of
           None \<Rightarrow> None
         | Some (imin', imax') \<Rightarrow>
             (case min_max_loop xq (unat numSamples) 0 (SHRT_MAX, SHRT_MIN) of
                None \<Rightarrow> None
              | Some (qmin', qmax') \<Rightarrow>
                  (let c5 = c4\<lparr>imin := (if imin c4 <s imin' then imin c4 else imin'),
                                imax := (if imax' <s imax c4 then imax c4 else imax'),
                                qmin := (if qmin c4 <s qmin' then qmin c4 else qmin'),
                                qmax := (if qmax' <s qmax c4 then qmax c4 else qmax')\<rparr>
                   in if 0 <s output_fd c5 then
                        (case write_samples uninit xi xq numSamples of
                           None \<Rightarrow> None
                         | Some (bytes, count) \<Rightarrow>
                             Some (c5, map Log m1 @ [Write_file (output_fd c5) bytes count] @
                               (if nwritten = - 1 then [Log write_failed_msg]
                                else if nwritten \<noteq> count then [Log (incomplete_write_msg count nwritten)]
                                else [])))
                      else Some (c5, map Log m1))))"

section \<open>Inputs used in the examples\<close>

definition one_signal :: delivery where
  "one_signal = (\<lparr>firstSampleNum = 0, grChanged = 1\<rparr>, 1000, 0)"

definition idle_context :: RXContext where
  "idle_context = \<lparr>total_samples = 0, next_sample_num = 0xffffffff, gain_reduction_changed = 0, verbose = 0\<rparr>"

definition stale_context :: RXContext where
  "stale_context = \<lparr>total_samples = 0, next_sample_num = 0xffffffff, gain_reduction_changed = 1, verbose = 0\<rparr>"

definition late_polls :: "nat \<Rightarrow> delivery list" where
  "late_polls i = (if i = 1 then [one_signal] else [])"

definition quiet_delivery :: delivery where
  "quiet_delivery = (\<lparr>firstSampleNum = 1000, grChanged = 0\<rparr>, 1000, 0)"

definition samples_from :: "c_uint \<Rightarrow> StreamCbParams" where
  "samples_from first = \<lparr>firstSampleNum = first, grChanged = 0\<rparr>"

text \<open>The context after one delivery to the context that \<open>main\<close> starts with.\<close>

definition first_delivery :: "c_uint \<Rightarrow> c_uint \<Rightarrow> RXContext" where
  "first_delivery first numSamples =
     fst (rx_callback (samples_from first) numSamples 0 idle_context)"

definition idle_record_context :: RXContextRecord where
  "idle_record_context =
     \<lparr>earliest_callback = \<lparr>tv_sec = 0, tv_usec = 0\<rparr>, latest_callback = \<lparr>tv_sec = 0, tv_usec = 0\<rparr>,
      total_samples_rec = 0, next_sample_num_rec = 0xffffffff, output_fd = - 1,
      imin = SHRT_MAX, imax = SHRT_MIN, qmin = SHRT_MAX, qmax = SHRT_MIN\<rparr>"

definition start_of_day :: timeval where
  "start_of_day = \<lparr>tv_sec = 1677251695, tv_usec = 0\<rparr>"

text \<open>
  The options \<open>-g 40,20,60 -l 0,1 -n 3\<close>, and three devices: one that never signals
  a gain change, one that signals it from inside \<open>sdrplay_api_Update\<close>, and one that
  signals every change during the first sleep of the wait loop.
\<close>

definition example_config :: config where
  "example_config =
     \<lparr>rsp_sample_rate = Finite 2000000, decimation = 1, if_frequency = 0, if_bandwidth = 200,
      gRdBs = [40, 20, 60], LNAstates = [0, 1], DCenable = 1, IQenable = 1, dcCal = 3,
      speedUp = 0, trackTime = 1, refreshRateTime = 2048, frequency = Finite 100000000,
      num_gain_changes = 3, wait_time = 0, verbose_opt = 0\<rparr>"

text \<open>The options \<open>-g 40,20,60 -l 0,300\<close>: an LNA state that does not fit 8 bits.\<close>

definition wide_lna_config :: config where
  "wide_lna_config = example_config\<lparr>LNAstates := [0, 300]\<rparr>"

definition quiet_env :: change_env where
  "quiet_env =
     \<lparr>during_wait = [], update_result = sdrplay_api_Success, during_update = [],
      during_poll = (\<lambda>i. []), after_poll = []\<rparr>"

definition synchronous_env :: change_env where
  "synchronous_env = quiet_env\<lparr>during_update := [one_signal]\<rparr>"

definition cooperative_env :: "c_uint \<Rightarrow> change_env" where
  "cooperative_env ngc =
     quiet_env\<lparr>during_poll :=
       (\<lambda>i. if i = 0 then [(\<lparr>firstSampleNum = 1000 * (ngc - 1), grChanged = 1\<rparr>, 1000, 0)] else [])\<rparr>"

text \<open>
  A device whose readback agrees with \<open>example_config\<close>, one that has clamped the
  centre frequency, and vendor calls that all succeed.
\<close>

definition configured_device :: device_state where
  "configured_device =
     \<lparr>hwVer = SDRPLAY_RSPduo_ID, tuner = sdrplay_api_Tuner_A,
      rspDuoMode = sdrplay_api_RspDuoMode_Single_Tuner, rspDuoSampleFreq = Finite 0,
      fsFreq_fsHz = Finite 2000000, decimation_enable = 0, decimation_decimationFactor = 1,
      tunerParams_ifType = 0, tunerParams_bwType = 200, gain_gRdB = 40, gain_LNAstate = 0,
      dcOffset_DCenable = 1, dcOffset_IQenable = 1, dcOffsetTuner_dcCal = 3,
      dcOffsetTuner_speedUp = 0, dcOffsetTuner_trackTime = 1,
      dcOffsetTuner_refreshRateTime = 2048, rfFreq_rfHz = Finite 100000000\<rparr>"

definition clamped_device :: device_state where
  "clamped_device = configured_device\<lparr>rfFreq_rfHz := Finite 99999999\<rparr>"

definition cooperative_main_env :: main_env where
  "cooperative_main_env =
     \<lparr>init_quick_result = sdrplay_api_Success, uninit_quick_result = sdrplay_api_Success,
      init_result = sdrplay_api_Success, changes = cooperative_env,
      uninit_result = sdrplay_api_Success, lock_result = sdrplay_api_Success,
      release_result = sdrplay_api_Success, unlock_result = sdrplay_api_Success,
      close_result = sdrplay_api_Success\<rparr>"

section \<open>Properties of the sample callback and of the wait loop\<close>

lemma rx_callback_flag:
  "gain_reduction_changed (fst (rx_callback params n r c)) = gain_reduction_changed c OR grChanged params"
  by (simp add: rx_callback_def Let_def)

lemma rx_callback_flag_stays:
  "gain_reduction_changed c \<noteq> 0 \<Longrightarrow> gain_reduction_changed (fst (rx_callback params n r c)) \<noteq> 0"
  by (simp add: rx_callback_flag or_eq_0_iff)

lemma deliver_Cons:
  "deliver ((params, n, r) # ds) c =
     (fst (deliver ds (fst (rx_callback params n r c))),
      map Print (snd (rx_callback params n r c)) @ snd (deliver ds (fst (rx_callback params n r c))))"
  by (simp add: case_prod_unfold Let_def)

lemma deliver_flag_stays:
  "gain_reduction_changed c \<noteq> 0 \<Longrightarrow> gain_reduction_changed (fst (deliver ds c)) \<noteq> 0"
proof (induction ds arbitrary: c)
  case Nil
  then show ?case by simp
next
  case (Cons d ds)
  obtain params n r where d: "d = (params, n, r)" by (cases d)
  from Cons.prems have "gain_reduction_changed (fst (rx_callback params n r c)) \<noteq> 0"
    by (rule rx_callback_flag_stays)
  then have "gain_reduction_changed (fst (deliver ds (fst (rx_callback params n r c)))) \<noteq> 0"
    by (rule Cons.IH)
  then show ?case by (simp add: d deliver_Cons del: deliver.simps)
qed

lemma rx_callback_messages:
  "m \<in> set (snd (rx_callback params n r c)) \<Longrightarrow> callback_event (Print m)"
  by (auto simp: rx_callback_def Let_def split: if_splits)

lemma deliver_events:
  "e \<in> set (snd (deliver ds c)) \<Longrightarrow> callback_event e"
proof (induction ds arbitrary: c)
  case Nil
  then show ?case by simp
next
  case (Cons d ds)
  obtain params n r where d: "d = (params, n, r)" by (cases d)
  from Cons.prems have "e \<in> Print ` set (snd (rx_callback params n r c))
      \<or> e \<in> set (snd (deliver ds (fst (rx_callback params n r c))))"
    by (simp add: d deliver_Cons del: deliver.simps)
  then show ?case
    using Cons.IH rx_callback_messages by blast
qed

lemma wait_at_bound:
  "\<not> e < UpdateTimeout \<Longrightarrow> wait_for_gain_change polls e p c = (e, c, [])"
  by (subst wait_for_gain_change.simps) simp

lemma wait_break_now:
  "e < UpdateTimeout \<Longrightarrow> p = 0 \<Longrightarrow> gain_reduction_changed c \<noteq> 0 \<Longrightarrow>
   wait_for_gain_change polls e p c = (e, c, [])"
  by (subst wait_for_gain_change.simps) simp

lemma wait_step:
  "e < UpdateTimeout \<Longrightarrow> \<not> (p = 0 \<and> gain_reduction_changed c \<noteq> 0) \<Longrightarrow>
   wait_for_gain_change polls e p c =
     (fst (wait_for_gain_change polls (Suc e) (gain_reduction_changed c) (fst (deliver (polls e) c))),
      fst (snd (wait_for_gain_change polls (Suc e) (gain_reduction_changed c) (fst (deliver (polls e) c)))),
      Usleep 1 # snd (deliver (polls e) c) @
        snd (snd (wait_for_gain_change polls (Suc e) (gain_reduction_changed c) (fst (deliver (polls e) c)))))"
  by (subst wait_for_gain_change.simps) (simp add: case_prod_unfold Let_def)

lemma wait_break:
  "e \<le> UpdateTimeout \<Longrightarrow>
   fst (wait_for_gain_change polls e p (context_at polls c e)) < UpdateTimeout \<Longrightarrow>
   (p = 0 \<and> flag_read polls c e \<noteq> 0 \<and> fst (wait_for_gain_change polls e p (context_at polls c e)) = e)
   \<or> (\<exists>k\<ge>e. fst (wait_for_gain_change polls e p (context_at polls c e)) = Suc k
          \<and> flag_read polls c k = 0 \<and> flag_read polls c (Suc k) \<noteq> 0)"
proof (induction "UpdateTimeout - e" arbitrary: e p)
  case 0
  then show ?case by (simp add: wait_at_bound)
next
  case (Suc n)
  then have lt: "e < UpdateTimeout" by simp
  show ?case
  proof (cases "p = 0 \<and> flag_read polls c e \<noteq> 0")
    case True
    then show ?thesis
      using lt by (simp add: wait_break_now flag_read_def)
  next
    case False
    let ?r = "wait_for_gain_change polls (Suc e) (flag_read polls c e) (context_at polls c (Suc e))"
    have unf: "fst (wait_for_gain_change polls e p (context_at polls c e)) = fst ?r"
      using lt False
      by (simp add: wait_step flag_read_def)
    have n: "n = UpdateTimeout - Suc e" using Suc.hyps(2) by simp
    have le: "Suc e \<le> UpdateTimeout" using lt by simp
    from Suc.prems(2) have "fst ?r < UpdateTimeout" by (simp add: unf)
    from Suc.hyps(1) [OF n le this]
    show ?thesis
      unfolding unf by (metis Suc_leD le_refl)
  qed
qed

lemma wait_no_break:
  "e \<le> UpdateTimeout \<Longrightarrow>
   \<not> (p = 0 \<and> flag_read polls c e \<noteq> 0) \<Longrightarrow>
   (\<And>i. e \<le> i \<Longrightarrow> Suc i < UpdateTimeout \<Longrightarrow> \<not> (flag_read polls c i = 0 \<and> flag_read polls c (Suc i) \<noteq> 0)) \<Longrightarrow>
   fst (wait_for_gain_change polls e p (context_at polls c e)) = UpdateTimeout"
proof (induction "UpdateTimeout - e" arbitrary: e p)
  case 0
  then show ?case by (simp add: wait_at_bound)
next
  case (Suc n)
  then have lt: "e < UpdateTimeout" by simp
  let ?r = "wait_for_gain_change polls (Suc e) (flag_read polls c e) (context_at polls c (Suc e))"
  have unf: "fst (wait_for_gain_change polls e p (context_at polls c e)) = fst ?r"
    using lt Suc.prems(2)
    by (simp add: wait_step flag_read_def)
  have n: "n = UpdateTimeout - Suc e" using Suc.hyps(2) by simp
  have le: "Suc e \<le> UpdateTimeout" using lt by simp
  show ?case
  proof (cases "Suc e < UpdateTimeout")
    case True
    have "\<not> (flag_read polls c e = 0 \<and> flag_read polls c (Suc e) \<noteq> 0)"
      using Suc.prems(3) [of e] True by simp
    moreover have "\<And>i. Suc e \<le> i \<Longrightarrow> Suc i < UpdateTimeout \<Longrightarrow>
        \<not> (flag_read polls c i = 0 \<and> flag_read polls c (Suc i) \<noteq> 0)"
      using Suc.prems(3) by simp
    ultimately have "fst ?r = UpdateTimeout"
      using Suc.hyps(1) [OF n le] by blast
    then show ?thesis by (simp add: unf)
  next
    case False
    then have "Suc e = UpdateTimeout" using lt by simp
    then show ?thesis
      by (simp add: unf wait_at_bound)
  qed
qed

lemma wait_context:
  "e \<le> UpdateTimeout \<Longrightarrow>
   fst (snd (wait_for_gain_change polls e p (context_at polls c e)))
     = context_at polls c (fst (wait_for_gain_change polls e p (context_at polls c e)))"
proof (induction "UpdateTimeout - e" arbitrary: e p)
  case 0
  then show ?case by (simp add: wait_at_bound)
next
  case (Suc n)
  then have lt: "e < UpdateTimeout" by simp
  show ?case
  proof (cases "p = 0 \<and> flag_read polls c e \<noteq> 0")
    case True
    then show ?thesis
      using lt by (simp add: wait_break_now flag_read_def)
  next
    case False
    let ?r = "wait_for_gain_change polls (Suc e) (flag_read polls c e) (context_at polls c (Suc e))"
    have unf: "fst (wait_for_gain_change polls e p (context_at polls c e)) = fst ?r"
       "fst (snd (wait_for_gain_change polls e p (context_at polls c e))) = fst (snd ?r)"
      using lt False
      by (simp_all add: wait_step flag_read_def)
    have n: "n = UpdateTimeout - Suc e" using Suc.hyps(2) by simp
    have le: "Suc e \<le> UpdateTimeout" using lt by simp
    from Suc.hyps(1) [OF n le]
    show ?thesis
      unfolding unf by simp
  qed
qed

lemma wait_events:
  "ev \<in> set (snd (snd (wait_for_gain_change polls e p c))) \<Longrightarrow> ev = Usleep 1 \<or> callback_event ev"
proof (induction "UpdateTimeout - e" arbitrary: e p c)
  case 0
  then show ?case by (simp add: wait_at_bound)
next
  case (Suc n)
  then have lt: "e < UpdateTimeout" by simp
  show ?case
  proof (cases "p = 0 \<and> gain_reduction_changed c \<noteq> 0")
    case True
    then show ?thesis
      using lt Suc.prems by (simp add: wait_break_now)
  next
    case False
    let ?r = "wait_for_gain_change polls (Suc e) (gain_reduction_changed c) (fst (deliver (polls e) c))"
    from Suc.prems have "ev = Usleep 1 \<or> ev \<in> set (snd (deliver (polls e) c)) \<or> ev \<in> set (snd (snd ?r))"
      using lt False by (simp add: wait_step)
    moreover have n: "n = UpdateTimeout - Suc e" using Suc.hyps(2) by simp
    ultimately show ?thesis
      using Suc.hyps(1) [OF n] deliver_events by blast
  qed
qed

lemma context_at_quiet: "context_at (\<lambda>i. []) c i = c"
  by (induction i) simp_all

lemma dropped_check_sentinel: "dropped_check 0xffffffff params = []"
  by (simp add: dropped_check_def)

lemma rx_callback_record_events:
  "rx_callback_record now uninit nwritten xi xq params numSamples reset rc = Some (rc', evs) \<Longrightarrow>
   Log m \<in> set evs \<Longrightarrow>
   m \<in> set (dropped_check (next_sample_num_rec rc) params) \<or> m = write_failed_msg
     \<or> (\<exists>a b. m = incomplete_write_msg a b)"
  by (auto simp: rx_callback_record_def Let_def split: option.splits if_splits prod.splits)

section \<open>Properties of one gain change\<close>

lemma deliver_flag_quiet:
  "(\<And>d. d \<in> set ds \<Longrightarrow> grChanged (fst d) = 0) \<Longrightarrow>
   gain_reduction_changed (fst (deliver ds c)) = gain_reduction_changed c"
proof (induction ds arbitrary: c)
  case Nil
  then show ?case by simp
next
  case (Cons d ds)
  obtain params n r where d: "d = (params, n, r)" by (cases d)
  have "grChanged params = 0" using Cons.prems [of d] by (simp add: d)
  then have "gain_reduction_changed (fst (rx_callback params n r c)) = gain_reduction_changed c"
    by (simp add: rx_callback_flag)
  moreover have "gain_reduction_changed (fst (deliver ds (fst (rx_callback params n r c))))
      = gain_reduction_changed (fst (rx_callback params n r c))"
    using Cons.prems by (intro Cons.IH) simp
  ultimately show ?case by (simp add: d deliver_Cons del: deliver.simps)
qed

lemma deliver_flag_signal:
  "d \<in> set ds \<Longrightarrow> grChanged (fst d) \<noteq> 0 \<Longrightarrow> gain_reduction_changed (fst (deliver ds c)) \<noteq> 0"
proof (induction ds arbitrary: c)
  case Nil
  then show ?case by simp
next
  case (Cons x ds)
  obtain params n r where x: "x = (params, n, r)" by (cases x)
  show ?case
  proof (cases "d = x")
    case True
    then have "gain_reduction_changed (fst (rx_callback params n r c)) \<noteq> 0"
      using Cons.prems(2) by (simp add: x rx_callback_flag or_eq_0_iff)
    then show ?thesis
      by (simp add: x deliver_Cons deliver_flag_stays del: deliver.simps)
  next
    case False
    then have "d \<in> set ds" using Cons.prems(1) by simp
    then show ?thesis
      using Cons.IH Cons.prems(2) by (simp add: x deliver_Cons del: deliver.simps)
  qed
qed

lemma flag_read_stays:
  "gain_reduction_changed c \<noteq> 0 \<Longrightarrow> flag_read polls c i \<noteq> 0"
  by (induction i) (simp_all add: flag_read_def deliver_flag_stays)

lemma flag_read_quiet:
  "(\<And>j d. j < i \<Longrightarrow> d \<in> set (polls j) \<Longrightarrow> grChanged (fst d) = 0) \<Longrightarrow>
   flag_read polls c i = gain_reduction_changed c"
proof (induction i)
  case 0
  then show ?case by (simp add: flag_read_def)
next
  case (Suc i)
  have "flag_read polls c (Suc i) = gain_reduction_changed (context_at polls c i)"
    unfolding flag_read_def context_at.simps
    using Suc.prems [of i] by (intro deliver_flag_quiet) simp
  also have "\<dots> = gain_reduction_changed c"
  proof -
    have "grChanged (fst d) = 0" if "j < i" and "d \<in> set (polls j)" for j d
      using Suc.prems [of j d] that by simp
    then have "flag_read polls c i = gain_reduction_changed c"
      by (rule Suc.IH)
    then show ?thesis by (simp add: flag_read_def)
  qed
  finally show ?case .
qed

lemma wait_set_flag_runs_to_bound:
  assumes "gain_reduction_changed c \<noteq> 0"
  shows "fst (wait_for_gain_change polls 0 (- 1) c) = UpdateTimeout"
    and "gain_reduction_changed (fst (snd (wait_for_gain_change polls 0 (- 1) c))) \<noteq> 0"
proof -
  show e: "fst (wait_for_gain_change polls 0 (- 1) c) = UpdateTimeout"
    using wait_no_break [of 0 "- 1" polls c] flag_read_stays [OF assms, of polls] by simp
  have "fst (snd (wait_for_gain_change polls 0 (- 1) c)) = context_at polls c UpdateTimeout"
    using wait_context [of 0 polls "- 1" c] by (simp add: e)
  then show "gain_reduction_changed (fst (snd (wait_for_gain_change polls 0 (- 1) c))) \<noteq> 0"
    using flag_read_stays [OF assms, of polls UpdateTimeout] by (simp add: flag_read_def)
qed

lemma wait_clear_flag_runs_to_bound:
  assumes "gain_reduction_changed c = 0"
    and "\<And>j d. j < UpdateTimeout \<Longrightarrow> d \<in> set (polls j) \<Longrightarrow> grChanged (fst d) = 0"
  shows "fst (wait_for_gain_change polls 0 (- 1) c) = UpdateTimeout"
    and "gain_reduction_changed (fst (snd (wait_for_gain_change polls 0 (- 1) c))) = 0"
proof -
  have r: "flag_read polls c i = 0" if le: "i \<le> UpdateTimeout" for i
  proof -
    have "grChanged (fst d) = 0" if "j < i" and "d \<in> set (polls j)" for j d
      using assms(2) [of j d] that le by simp
    then have "flag_read polls c i = gain_reduction_changed c"
      by (rule flag_read_quiet)
    then show ?thesis by (simp add: assms(1))
  qed
  show e: "fst (wait_for_gain_change polls 0 (- 1) c) = UpdateTimeout"
    using wait_no_break [of 0 "- 1" polls c] r by simp
  have "fst (snd (wait_for_gain_change polls 0 (- 1) c)) = context_at polls c UpdateTimeout"
    using wait_context [of 0 polls "- 1" c] by (simp add: e)
  then show "gain_reduction_changed (fst (snd (wait_for_gain_change polls 0 (- 1) c))) = 0"
    using r [of UpdateTimeout] by (simp add: flag_read_def)
qed

lemma await_update_unfold:
  "await_update cfg ce ngc c3 =
     (fst (deliver (after_poll ce) (fst (snd (wait_for_gain_change (during_poll ce) 0 (- 1) c3)))),
      (if ngc mod ProgressEveryNGainChanges = 0 then [Print (progress_msg ngc)] else []) @
      snd (snd (wait_for_gain_change (during_poll ce) 0 (- 1) c3)) @
      (if verbose_opt cfg \<noteq> 0
       then [Print (elapsed_msg ngc (fst (wait_for_gain_change (during_poll ce) 0 (- 1) c3)))] else []) @
      snd (deliver (after_poll ce) (fst (snd (wait_for_gain_change (during_poll ce) 0 (- 1) c3)))) @
      (if gain_reduction_changed
            (fst (deliver (after_poll ce) (fst (snd (wait_for_gain_change (during_poll ce) 0 (- 1) c3))))) = 0
       then [Print timeout_msg] else []))"
  by (simp add: await_update_def Let_def case_prod_unfold)

lemma await_update_timeout_iff:
  "(Print timeout_msg \<in> set (snd (await_update cfg ce ngc c3)))
     = (gain_reduction_changed (fst (await_update cfg ce ngc c3)) = 0)"
proof -
  have "Print timeout_msg \<notin> set (snd (snd (wait_for_gain_change (during_poll ce) 0 (- 1) c3)))"
    using wait_events [of "Print timeout_msg"] by auto
  moreover have "Print timeout_msg \<notin>
      set (snd (deliver (after_poll ce) (fst (snd (wait_for_gain_change (during_poll ce) 0 (- 1) c3)))))"
    using deliver_events [of "Print timeout_msg"] by auto
  ultimately show ?thesis
    by (simp add: await_update_unfold)
qed

lemma await_update_last:
  "gain_reduction_changed (fst (await_update cfg ce ngc c3)) = 0 \<Longrightarrow>
   last (snd (await_update cfg ce ngc c3)) = Print timeout_msg"
  by (simp add: await_update_unfold)

lemma await_update_no_call:
  "Call a \<notin> set (snd (await_update cfg ce ngc c3))"
proof -
  have "Call a \<notin> set (snd (snd (wait_for_gain_change (during_poll ce) 0 (- 1) c3)))"
    using wait_events [of "Call a"] by auto
  moreover have "Call a \<notin>
      set (snd (deliver (after_poll ce) (fst (snd (wait_for_gain_change (during_poll ce) 0 (- 1) c3)))))"
    using deliver_events [of "Call a"] by auto
  ultimately show ?thesis
    by (simp add: await_update_unfold)
qed

lemma issue_update_unfold:
  "issue_update cfg ce ngc c =
     (case next_gain cfg ngc of
        None \<Rightarrow> None
      | Some gl \<Rightarrow>
          Some (fst (deliver (during_update ce) ((fst (deliver (during_wait ce) c))\<lparr>gain_reduction_changed := 0\<rparr>)),
                Usleep (wait_time cfg) # snd (deliver (during_wait ce) c) @
                [Write_gRdB (fst gl), Write_LNAstate (ucast (snd gl)), Reset_flag,
                 Call sdrplay_api_Update_Tuner_Gr] @
                snd (deliver (during_update ce) ((fst (deliver (during_wait ce) c))\<lparr>gain_reduction_changed := 0\<rparr>))))"
  by (simp add: issue_update_def Let_def case_prod_unfold split: option.splits)

lemma count_list_callback_events:
  "\<forall>e\<in>set es. callback_event e \<Longrightarrow> count_list es (Call a) = 0"
  by (induction es) auto

lemma issue_update_one_call:
  "issue_update cfg ce ngc c = Some (c3, start) \<Longrightarrow>
   count_list start (Call sdrplay_api_Update_Tuner_Gr) = 1"
  using count_list_callback_events [of "snd (deliver ds c')" sdrplay_api_Update_Tuner_Gr for ds c']
    deliver_events
  by (auto simp: issue_update_unfold split: option.splits)

lemma one_gain_change_success:
  "issue_update cfg ce ngc c = Some (c3, start) \<Longrightarrow> update_result ce = sdrplay_api_Success \<Longrightarrow>
   one_gain_change cfg ce ngc c
     = (Continue, fst (await_update cfg ce ngc c3), start @ snd (await_update cfg ce ngc c3))"
  by (simp add: one_gain_change_def case_prod_unfold Let_def)

lemma gain_change_loop_step:
  "ngc < num_gain_changes cfg \<Longrightarrow> one_gain_change cfg (env ngc) ngc c = (Continue, c1, es) \<Longrightarrow>
   gain_change_loop cfg env ngc c =
     (fst (gain_change_loop cfg env (ngc + 1) c1), fst (snd (gain_change_loop cfg env (ngc + 1) c1)),
      es @ snd (snd (gain_change_loop cfg env (ngc + 1) c1)))"
  by (subst gain_change_loop.simps) (simp add: case_prod_unfold Let_def)

lemma issue_update_context:
  "issue_update cfg ce ngc c = Some (c3, start) \<Longrightarrow>
   c3 = fst (deliver (during_update ce) ((fst (deliver (during_wait ce) c))\<lparr>gain_reduction_changed := 0\<rparr>))"
  by (auto simp: issue_update_unfold split: option.splits)

lemma issue_update_no_print:
  "issue_update cfg ce ngc c = Some (c3, start) \<Longrightarrow> Print timeout_msg \<notin> set start"
  using deliver_events [of "Print timeout_msg"]
  by (auto simp: issue_update_unfold split: option.splits)

lemma one_gain_change_flag_set:
  assumes iu: "issue_update cfg ce ngc c = Some (c3, start)"
    and ok: "update_result ce = sdrplay_api_Success"
    and fl: "gain_reduction_changed c3 \<noteq> 0"
  shows "fst (wait_for_gain_change (during_poll ce) 0 (- 1) c3) = UpdateTimeout"
    and "fst (one_gain_change cfg ce ngc c) = Continue"
    and "Print timeout_msg \<notin> set (snd (snd (one_gain_change cfg ce ngc c)))"
proof -
  show "fst (wait_for_gain_change (during_poll ce) 0 (- 1) c3) = UpdateTimeout"
    using fl by (rule wait_set_flag_runs_to_bound)
  show "fst (one_gain_change cfg ce ngc c) = Continue"
    by (simp add: one_gain_change_success [OF iu ok])
  have "gain_reduction_changed (fst (snd (wait_for_gain_change (during_poll ce) 0 (- 1) c3))) \<noteq> 0"
    using fl by (rule wait_set_flag_runs_to_bound)
  then have "gain_reduction_changed (fst (await_update cfg ce ngc c3)) \<noteq> 0"
    by (simp add: await_update_unfold deliver_flag_stays)
  then have "Print timeout_msg \<notin> set (snd (await_update cfg ce ngc c3))"
    by (simp add: await_update_timeout_iff)
  then show "Print timeout_msg \<notin> set (snd (snd (one_gain_change cfg ce ngc c)))"
    using issue_update_no_print [OF iu] by (simp add: one_gain_change_success [OF iu ok])
qed

lemma issue_update_synchronous:
  "issue_update example_config synchronous_env 1 (initial_rx_context example_config)
     = Some (\<lparr>total_samples = 1000, next_sample_num = 1000, gain_reduction_changed = 1, verbose = 0\<rparr>,
             [Usleep 0, Write_gRdB 20, Write_LNAstate 1, Reset_flag, Call sdrplay_api_Update_Tuner_Gr])"
  by (simp add: issue_update_def next_gain_def array_mod_read_def ngRdBs_def nLNAstates_def
      example_config_def synchronous_env_def quiet_env_def initial_rx_context_def one_signal_def
      rx_callback_def)

lemma issue_update_quiet:
  "issue_update example_config quiet_env 1 (initial_rx_context example_config)
     = Some (initial_rx_context example_config,
             [Usleep 0, Write_gRdB 20, Write_LNAstate 1, Reset_flag, Call sdrplay_api_Update_Tuner_Gr])"
  by (simp add: issue_update_def next_gain_def array_mod_read_def ngRdBs_def nLNAstates_def
      example_config_def quiet_env_def initial_rx_context_def)

lemma array_mod_read_in_range:
  assumes "arr \<noteq> []" and "length arr < 2 ^ 31"
  shows "array_mod_read arr (word_of_nat (length arr)) ngc = Some (arr ! (unat ngc mod length arr))"
proof -
  have u: "unat (word_of_nat (length arr) :: c_int) = length arr"
    using assms(2) by (simp add: unat_of_nat)
  then have nz: "(word_of_nat (length arr) :: c_int) \<noteq> 0"
    using assms(1) by (metis length_0_conv unat_0)
  have "unat (ngc mod word_of_nat (length arr)) = unat ngc mod length arr"
    by (simp add: unat_mod u)
  moreover have "unat ngc mod length arr < length arr"
    using assms(1) by simp
  ultimately show ?thesis
    using nz by (simp add: array_mod_read_def)
qed

section \<open>Properties of the loop over the gain changes and of the readback check\<close>

lemma gain_change_loop_done:
  "\<not> ngc < num_gain_changes cfg \<Longrightarrow> gain_change_loop cfg env ngc c = (Continue, c, [])"
  by (subst gain_change_loop.simps) simp

lemma unat_next_change:
  fixes ngc :: c_uint
  assumes "ngc < n"
  shows "unat (ngc + 1) = Suc (unat ngc)"
  using assms
  by (metis (no_types, lifting) add_cancel_left_left inc_i
        linorder_le_less_linear olen_add_eqv unat_plus_simple unsigned_0
        unsigned_1 word_less_1 Suc_eq_plus1)

lemma gain_change_loop_update_count:
  assumes g: "gRdBs cfg \<noteq> []" "length (gRdBs cfg) < 2 ^ 31"
    and l: "LNAstates cfg \<noteq> []" "length (LNAstates cfg) < 2 ^ 31"
    and ok: "\<And>n. update_result (env n) = sdrplay_api_Success"
  shows "count_list (snd (snd (gain_change_loop cfg env ngc c))) (Call sdrplay_api_Update_Tuner_Gr)
           = unat (num_gain_changes cfg) - unat ngc"
proof (induction "unat (num_gain_changes cfg) - unat ngc" arbitrary: ngc c)
  case 0
  then have "\<not> ngc < num_gain_changes cfg"
    by (simp add: word_less_nat_alt)
  then show ?case
    using 0 by (simp add: gain_change_loop_done)
next
  case (Suc k)
  then have lt: "ngc < num_gain_changes cfg"
    by (simp add: word_less_nat_alt)
  have ng: "next_gain cfg ngc \<noteq> None"
    using g l by (simp add: next_gain_def ngRdBs_def nLNAstates_def array_mod_read_in_range)
  then obtain c3 start where iu: "issue_update cfg (env ngc) ngc c = Some (c3, start)"
    by (auto simp: issue_update_unfold)
  let ?c7 = "fst (await_update cfg (env ngc) ngc c3)"
  let ?es = "snd (await_update cfg (env ngc) ngc c3)"
  have one: "one_gain_change cfg (env ngc) ngc c = (Continue, ?c7, start @ ?es)"
    by (rule one_gain_change_success [OF iu ok])
  have "count_list ?es (Call sdrplay_api_Update_Tuner_Gr) = 0"
    using await_update_no_call [of sdrplay_api_Update_Tuner_Gr cfg "env ngc" ngc c3]
    by (simp add: count_list_0_iff)
  then have c1: "count_list (start @ ?es) (Call sdrplay_api_Update_Tuner_Gr) = 1"
    using issue_update_one_call [OF iu] by simp
  have k: "k = unat (num_gain_changes cfg) - unat (ngc + 1)"
    using Suc.hyps(2) by (simp add: unat_next_change [OF lt])
  have "count_list (snd (snd (gain_change_loop cfg env (ngc + 1) ?c7))) (Call sdrplay_api_Update_Tuner_Gr)
      = unat (num_gain_changes cfg) - unat (ngc + 1)"
    using k by (rule Suc.hyps(1))
  then show ?case
    using c1 Suc.hyps(2) by (simp add: gain_change_loop_step [where env = env, OF lt one] unat_next_change [OF lt])
qed

lemma unexpected_fst: "fst (unexpected differs f st) = (\<not> differs \<and> fst st)"
  by (simp add: unexpected_def)

lemma unexpected_snd:
  "\<forall>m\<in>set (snd st). \<exists>g. m = unexpected_change_msg g \<Longrightarrow>
   \<forall>m\<in>set (snd (unexpected differs f st)). \<exists>g. m = unexpected_change_msg g"
  by (simp add: unexpected_def)

lemma unexpected_nonempty:
  "(fst st \<or> snd st \<noteq> []) \<Longrightarrow> (fst (unexpected differs f st) \<or> snd (unexpected differs f st) \<noteq> [])"
  by (simp add: unexpected_def)

lemma readback_check_ok_iff:
  "fst (readback_check cfg d) =
     (\<not> (tuner d \<noteq> sdrplay_api_Tuner_A
         \<or> (if hwVer d = SDRPLAY_RSPduo_ID
             then rspDuoMode d \<noteq> sdrplay_api_RspDuoMode_Single_Tuner
             else rspDuoMode d \<noteq> sdrplay_api_RspDuoMode_Unknown)
         \<or> double_ne (rspDuoSampleFreq d) (Finite 0)
         \<or> double_ne (fsFreq_fsHz d) (rsp_sample_rate cfg)
         \<or> decimation_enable d \<noteq> decimation_gt_1 cfg
         \<or> decimation_decimationFactor d \<noteq> decimation cfg
         \<or> tunerParams_ifType d \<noteq> if_frequency cfg
         \<or> tunerParams_bwType d \<noteq> if_bandwidth cfg
         \<or> gain_gRdB d \<noteq> gRdBs cfg ! 0
         \<or> gain_LNAstate d \<noteq> LNAstates cfg ! 0
         \<or> dcOffset_DCenable d \<noteq> DCenable cfg
         \<or> dcOffset_IQenable d \<noteq> IQenable cfg
         \<or> dcOffsetTuner_dcCal d \<noteq> dcCal cfg
         \<or> dcOffsetTuner_speedUp d \<noteq> speedUp cfg
         \<or> dcOffsetTuner_trackTime d \<noteq> trackTime cfg
         \<or> dcOffsetTuner_refreshRateTime d \<noteq> refreshRateTime cfg
         \<or> double_ne (rfFreq_rfHz d) (frequency cfg)))"
  unfolding readback_check_def unexpected_fst by (simp only: fst_conv) blast

lemma readback_check_messages:
  "\<forall>m\<in>set (snd (readback_check cfg d)). \<exists>g. m = unexpected_change_msg g"
  unfolding readback_check_def by (intro unexpected_snd) simp

lemma readback_check_nonempty:
  "fst (readback_check cfg d) \<or> snd (readback_check cfg d) \<noteq> []"
  unfolding readback_check_def by (intro unexpected_nonempty) simp

lemma main_from_quick_check_rejected:
  assumes "gRdBs cfg \<noteq> []" and "LNAstates cfg \<noteq> []"
    and "init_quick_result env = sdrplay_api_Success"
    and "\<not> fst (readback_check cfg d)"
  shows "main_from_quick_check cfg d env =
     (Call sdrplay_api_Init_no_callbacks # Print settings_msg # map Print (snd (readback_check cfg d)) @
      [Call sdrplay_api_Uninit, Call sdrplay_api_ReleaseDevice, Call sdrplay_api_Close], Some 1)"
  using assms by (simp add: main_from_quick_check_def case_prod_unfold)

section \<open>Properties of the recorder's loops\<close>

lemma sample_index_small:
  "2 * i + off < 2 ^ 32 \<Longrightarrow> sample_index i off = 2 * i + off"
proof -
  assume b: "2 * i + off < 2 ^ 32"
  have "2 * (word_of_nat i :: c_uint) + word_of_nat off = word_of_nat (2 * i + off)"
    by simp
  then show ?thesis
    using b by (simp only: sample_index_def unat_of_nat) simp
qed

lemma interleave_done:
  "\<not> i < n \<Longrightarrow> interleave_loop xs n off i samples = Some samples"
  by (subst interleave_loop.simps) simp

lemma interleave_step:
  "i < n \<Longrightarrow> i < length xs \<Longrightarrow> sample_index i off < length samples \<Longrightarrow>
   interleave_loop xs n off i samples
     = interleave_loop xs n off (Suc i) (samples[sample_index i off := xs ! i])"
  by (subst interleave_loop.simps) simp

lemma interleave_loop_result:
  assumes "n \<le> length xs" and "2 * n \<le> length samples" and "off < 2" and "length samples < 2 ^ 32"
  shows "\<exists>s. interleave_loop xs n off i samples = Some s \<and> length s = length samples
           \<and> (\<forall>j. i \<le> j \<and> j < n \<longrightarrow> s ! (2 * j + off) = xs ! j)
           \<and> (\<forall>k < length samples. (\<forall>j. i \<le> j \<and> j < n \<longrightarrow> k \<noteq> 2 * j + off) \<longrightarrow> s ! k = samples ! k)"
  using assms
proof (induction "n - i" arbitrary: i samples)
  case 0
  then show ?case by (auto simp: interleave_done)
next
  case (Suc m)
  then have lt: "i < n" by simp
  have b: "2 * i + off < length samples"
    using lt Suc.prems by simp
  then have idx: "sample_index i off = 2 * i + off"
    using Suc.prems(4) by (intro sample_index_small) simp
  let ?s1 = "samples[2 * i + off := xs ! i]"
  have step: "interleave_loop xs n off i samples = interleave_loop xs n off (Suc i) ?s1"
    using lt Suc.prems(1) b by (simp add: interleave_step idx)
  have m: "m = n - Suc i" using Suc.hyps(2) by simp
  from Suc.hyps(1) [OF m, of ?s1] Suc.prems
  obtain s where s: "interleave_loop xs n off (Suc i) ?s1 = Some s" "length s = length samples"
      "\<forall>j. Suc i \<le> j \<and> j < n \<longrightarrow> s ! (2 * j + off) = xs ! j"
      "\<forall>k < length samples. (\<forall>j. Suc i \<le> j \<and> j < n \<longrightarrow> k \<noteq> 2 * j + off) \<longrightarrow> s ! k = ?s1 ! k"
    by auto
  have here: "s ! (2 * i + off) = xs ! i"
  proof -
    have "\<forall>j. Suc i \<le> j \<and> j < n \<longrightarrow> 2 * i + off \<noteq> 2 * j + off" by simp
    then have "s ! (2 * i + off) = ?s1 ! (2 * i + off)" using s(4) b by blast
    then show ?thesis using b by simp
  qed
  have "\<forall>j. i \<le> j \<and> j < n \<longrightarrow> s ! (2 * j + off) = xs ! j"
  proof (intro allI impI)
    fix j assume "i \<le> j \<and> j < n"
    then consider "j = i" | "Suc i \<le> j \<and> j < n" by linarith
    then show "s ! (2 * j + off) = xs ! j"
      using here s(3) by cases auto
  qed
  moreover have "\<forall>k < length samples. (\<forall>j. i \<le> j \<and> j < n \<longrightarrow> k \<noteq> 2 * j + off) \<longrightarrow> s ! k = samples ! k"
  proof (intro allI impI)
    fix k assume k: "k < length samples" and o: "\<forall>j. i \<le> j \<and> j < n \<longrightarrow> k \<noteq> 2 * j + off"
    then have "k \<noteq> 2 * i + off" using lt by auto
    moreover have "s ! k = ?s1 ! k" using s(4) k o by auto
    ultimately show "s ! k = samples ! k" by simp
  qed
  ultimately show ?case
    using s(1,2) by (simp add: step)
qed

lemma min_max_done:
  "\<not> i < n \<Longrightarrow> min_max_loop xs n i mm = Some mm"
  by (subst min_max_loop.simps) simp

lemma min_max_loop_defined:
  "n \<le> length xs \<Longrightarrow> \<exists>mm'. min_max_loop xs n i mm = Some mm'"
proof (induction "n - i" arbitrary: i mm)
  case 0
  then show ?case by (simp add: min_max_done)
next
  case (Suc m)
  then have lt: "i < n" by simp
  have m: "m = n - Suc i" using Suc.hyps(2) by simp
  have "min_max_loop xs n i mm = min_max_loop xs n (Suc i)
             (if fst mm <s xs ! i then fst mm else xs ! i,
              if xs ! i <s snd mm then snd mm else xs ! i)"
    using lt Suc.prems by (subst min_max_loop.simps) simp
  then show ?case
    using Suc.hyps(1) [OF m Suc.prems] by simp
qed

lemma count_small:
  fixes numSamples :: c_uint
  assumes "unat numSamples \<le> 2048"
  shows "unat (ucast (numSamples * 2) * 2 :: c_size_t) = unat numSamples * 2 * 2"
proof -
  have a: "unat (numSamples * 2) = unat numSamples * 2"
    using assms by (simp add: unat_word_ariths)
  have b: "unat (ucast (numSamples * 2) :: c_size_t) = unat (numSamples * 2)"
    by (simp add: unsigned_ucast_eq take_bit_nat_eq_self unsigned_less [THEN less_trans])
  have "unat (ucast (numSamples * 2) * 2 :: c_size_t) = unat (ucast (numSamples * 2) :: c_size_t) * 2"
    using assms by (simp add: unat_word_ariths(2) [where 'a = 64] b a)
  then show ?thesis by (simp add: a b)
qed

lemma write_samples_result:
  assumes n: "unat numSamples \<le> 2048"
    and xi: "unat numSamples \<le> length xi" and xq: "unat numSamples \<le> length xq"
  shows "\<exists>samples. write_samples uninit xi xq numSamples
             = Some (take (2 * unat numSamples) samples, ucast (numSamples * 2) * 2)
           \<and> length samples = 4096
           \<and> (\<forall>i < unat numSamples. samples ! (2 * i) = xi ! i \<and> samples ! (2 * i + 1) = xq ! i)"
proof -
  let ?n = "unat numSamples"
  let ?s0 = "map uninit [0..<4096]"
  have l0: "length ?s0 = 4096" by simp
  from interleave_loop_result [of ?n xi ?s0 0 0] n xi
  obtain s1 where s1: "interleave_loop xi ?n 0 0 ?s0 = Some s1" "length s1 = 4096"
      "\<forall>j. j < ?n \<longrightarrow> s1 ! (2 * j) = xi ! j"
    by (auto simp: l0 simp del: length_map length_upt)
  from interleave_loop_result [of ?n xq s1 "Suc 0" 0] n xq s1(2)
  obtain s where s: "interleave_loop xq ?n (Suc 0) 0 s1 = Some s" "length s = 4096"
      "\<forall>j. j < ?n \<longrightarrow> s ! (2 * j + 1) = xq ! j"
      "\<forall>k < 4096. (\<forall>j. j < ?n \<longrightarrow> k \<noteq> 2 * j + 1) \<longrightarrow> s ! k = s1 ! k"
    by auto
  have even: "s ! (2 * i) = xi ! i" if "i < ?n" for i
  proof -
    have "\<forall>j. j < ?n \<longrightarrow> 2 * i \<noteq> 2 * j + 1" by presburger
    moreover have "2 * i < 4096" using that n by simp
    ultimately have "s ! (2 * i) = s1 ! (2 * i)" using s(4) by blast
    then show ?thesis using s1(3) that by simp
  qed
  have "unat (ucast (numSamples * 2) * 2 :: c_size_t) div 2 = 2 * ?n"
    by (simp add: count_small [OF n])
  then have "write_samples uninit xi xq numSamples
             = Some (take (2 * ?n) s, ucast (numSamples * 2) * 2)"
    by (simp add: write_samples_def s1(1) s(1) Let_def)
  then show ?thesis
    using s(2,3) even by blast
qed

section \<open>The claims\<close>

text \<open>
  C1. The wait loop leaves early only at an iteration \<open>Suc k\<close> whose read of the flag
  is non-zero while the read of iteration \<open>k\<close> just before was zero: it has seen the flag
  go from false to true on two successive reads of this loop. And whenever the flag is
  non-zero at the entry of the loop and no two successive reads go from zero to non-zero,
  the loop runs to \<open>UpdateTimeout\<close> and does not leave early.
\<close>

theorem wait_breaks_only_on_transition:
  "(fst (wait_for_gain_change polls 0 (- 1) c) < UpdateTimeout \<longrightarrow>
      (\<exists>k. fst (wait_for_gain_change polls 0 (- 1) c) = Suc k
           \<and> flag_read polls c k = 0 \<and> flag_read polls c (Suc k) \<noteq> 0))
   \<and> (flag_read polls c 0 \<noteq> 0
        \<and> (\<forall>i. Suc i < UpdateTimeout \<longrightarrow> \<not> (flag_read polls c i = 0 \<and> flag_read polls c (Suc i) \<noteq> 0))
      \<longrightarrow> fst (wait_for_gain_change polls 0 (- 1) c) = UpdateTimeout)"
proof (intro conjI impI)
  assume "fst (wait_for_gain_change polls 0 (- 1) c) < UpdateTimeout"
  with wait_break [of 0 polls "- 1" c]
  show "\<exists>k. fst (wait_for_gain_change polls 0 (- 1) c) = Suc k
           \<and> flag_read polls c k = 0 \<and> flag_read polls c (Suc k) \<noteq> 0"
    by auto
next
  assume "flag_read polls c 0 \<noteq> 0
        \<and> (\<forall>i. Suc i < UpdateTimeout \<longrightarrow> \<not> (flag_read polls c i = 0 \<and> flag_read polls c (Suc i) \<noteq> 0))"
  with wait_no_break [of 0 "- 1" polls c]
  show "fst (wait_for_gain_change polls 0 (- 1) c) = UpdateTimeout"
    by simp
qed

text \<open>
  A signal that arrives during the second sleep is seen at iteration 2; a flag that is
  already set at the entry and stays set keeps the loop running to the bound.
\<close>

theorem wait_breaks_only_on_transition_witness:
  "fst (wait_for_gain_change late_polls 0 (- 1) idle_context) = 2
   \<and> 2 < UpdateTimeout
   \<and> flag_read late_polls idle_context 1 = 0
   \<and> flag_read late_polls idle_context 2 \<noteq> 0
   \<and> flag_read (\<lambda>i. []) stale_context 0 \<noteq> 0
   \<and> fst (wait_for_gain_change (\<lambda>i. []) 0 (- 1) stale_context) = UpdateTimeout"
proof -
  have e: "fst (wait_for_gain_change late_polls 0 (- 1) idle_context) = 2"
    by (simp add: wait_step wait_break_now UpdateTimeout_def idle_context_def one_signal_def
        late_polls_def rx_callback_def)
  have lt: "fst (wait_for_gain_change late_polls 0 (- 1) idle_context) < UpdateTimeout"
    by (simp add: e UpdateTimeout_def)
  have r: "flag_read (\<lambda>i. []) stale_context i \<noteq> 0" for i
    by (simp add: flag_read_def context_at_quiet stale_context_def)
  have pre: "flag_read (\<lambda>i. []) stale_context 0 \<noteq> 0
        \<and> (\<forall>i. Suc i < UpdateTimeout \<longrightarrow>
              \<not> (flag_read (\<lambda>i. []) stale_context i = 0 \<and> flag_read (\<lambda>i. []) stale_context (Suc i) \<noteq> 0))"
    using r by simp
  from wait_breaks_only_on_transition [of late_polls idle_context] lt e
  have "flag_read late_polls idle_context 1 = 0 \<and> flag_read late_polls idle_context 2 \<noteq> 0"
    by (simp add: numeral_2_eq_2)
  moreover from wait_breaks_only_on_transition [of "\<lambda>i. []" stale_context] pre
  have "fst (wait_for_gain_change (\<lambda>i. []) 0 (- 1) stale_context) = UpdateTimeout"
    by blast
  ultimately show ?thesis
    using e r by (simp add: UpdateTimeout_def)
qed


text \<open>
  C2 (as stated, refuted). A device signals the gain change from inside
  \<open>sdrplay_api_Update\<close>. The wait loop finds the flag set, sees no change from false
  to true and runs to the bound of 10000 iterations; no timeout warning is logged.
\<close>

theorem bound_reached_without_warning:
  "update_result synchronous_env = sdrplay_api_Success
   \<and> fst (wait_for_gain_change (during_poll synchronous_env) 0 (- 1)
        (fst (the (issue_update example_config synchronous_env 1 (initial_rx_context example_config)))))
       = UpdateTimeout
   \<and> Print timeout_msg \<notin> set (snd (snd (one_gain_change example_config synchronous_env 1
                                             (initial_rx_context example_config))))"
  using one_gain_change_flag_set [OF issue_update_synchronous]
  by (simp add: issue_update_synchronous) (simp add: synchronous_env_def quiet_env_def)

text \<open>
  C2 (amended). For every change index below \<open>num_gain_changes\<close> whose update
  succeeds: the iteration ends with \<open>Continue\<close>; the timeout warning is logged if and
  only if the flag is zero when it is read after the wait loop; the iteration issues
  exactly one update; and the loop goes on with the next change index. When no delivery
  between the reset and that last read carries \<open>grChanged\<close>, the wait loop runs to
  the bound of 10000 iterations and the warning is the last event of the iteration.
\<close>

theorem timeout_warning_iff_flag_clear:
  assumes lt: "ngc < num_gain_changes cfg"
    and iu: "issue_update cfg (env ngc) ngc c = Some (c3, start)"
    and ok: "update_result (env ngc) = sdrplay_api_Success"
    and au: "await_update cfg (env ngc) ngc c3 = (c7, es)"
  shows "one_gain_change cfg (env ngc) ngc c = (Continue, c7, start @ es)
     \<and> ((Print timeout_msg \<in> set es) = (gain_reduction_changed c7 = 0))
     \<and> count_list (start @ es) (Call sdrplay_api_Update_Tuner_Gr) = 1
     \<and> gain_change_loop cfg env ngc c =
         (fst (gain_change_loop cfg env (ngc + 1) c7), fst (snd (gain_change_loop cfg env (ngc + 1) c7)),
          (start @ es) @ snd (snd (gain_change_loop cfg env (ngc + 1) c7)))
     \<and> ((\<forall>d\<in>set (during_update (env ngc)). grChanged (fst d) = 0)
          \<and> (\<forall>i<UpdateTimeout. \<forall>d\<in>set (during_poll (env ngc) i). grChanged (fst d) = 0)
          \<and> (\<forall>d\<in>set (after_poll (env ngc)). grChanged (fst d) = 0)
        \<longrightarrow> fst (wait_for_gain_change (during_poll (env ngc)) 0 (- 1) c3) = UpdateTimeout
            \<and> last es = Print timeout_msg)"
proof (intro conjI impI)
  show one: "one_gain_change cfg (env ngc) ngc c = (Continue, c7, start @ es)"
    by (simp add: one_gain_change_success [OF iu ok] au)
  show "(Print timeout_msg \<in> set es) = (gain_reduction_changed c7 = 0)"
    using await_update_timeout_iff [of cfg "env ngc" ngc c3] by (simp add: au)
  have "count_list es (Call sdrplay_api_Update_Tuner_Gr) = 0"
    using await_update_no_call [of sdrplay_api_Update_Tuner_Gr cfg "env ngc" ngc c3]
    by (simp add: au count_list_0_iff)
  then show "count_list (start @ es) (Call sdrplay_api_Update_Tuner_Gr) = 1"
    using issue_update_one_call [OF iu] by simp
  show "gain_change_loop cfg env ngc c =
         (fst (gain_change_loop cfg env (ngc + 1) c7), fst (snd (gain_change_loop cfg env (ngc + 1) c7)),
          (start @ es) @ snd (snd (gain_change_loop cfg env (ngc + 1) c7)))"
    using lt one by (rule gain_change_loop_step)
next
  assume q: "(\<forall>d\<in>set (during_update (env ngc)). grChanged (fst d) = 0)
          \<and> (\<forall>i<UpdateTimeout. \<forall>d\<in>set (during_poll (env ngc) i). grChanged (fst d) = 0)
          \<and> (\<forall>d\<in>set (after_poll (env ngc)). grChanged (fst d) = 0)"
  have c3: "gain_reduction_changed c3 = 0"
    unfolding issue_update_context [OF iu]
    using q by (subst deliver_flag_quiet) simp_all
  have w: "fst (wait_for_gain_change (during_poll (env ngc)) 0 (- 1) c3) = UpdateTimeout"
    "gain_reduction_changed (fst (snd (wait_for_gain_change (during_poll (env ngc)) 0 (- 1) c3))) = 0"
    using q by (simp_all add: wait_clear_flag_runs_to_bound [OF c3])
  show "fst (wait_for_gain_change (during_poll (env ngc)) 0 (- 1) c3) = UpdateTimeout"
    by (rule w)
  have "gain_reduction_changed (fst (await_update cfg (env ngc) ngc c3)) = 0"
    using q w(2) by (simp add: await_update_unfold deliver_flag_quiet)
  then show "last es = Print timeout_msg"
    using await_update_last [of cfg "env ngc" ngc c3] by (simp add: au)
qed

theorem timeout_warning_iff_flag_clear_witness:
  "(1 :: c_uint) < num_gain_changes example_config
   \<and> issue_update example_config quiet_env 1 (initial_rx_context example_config)
       = Some (initial_rx_context example_config,
               [Usleep 0, Write_gRdB 20, Write_LNAstate 1, Reset_flag, Call sdrplay_api_Update_Tuner_Gr])
   \<and> update_result quiet_env = sdrplay_api_Success
   \<and> fst (one_gain_change example_config quiet_env 1 (initial_rx_context example_config)) = Continue
   \<and> fst (wait_for_gain_change (during_poll quiet_env) 0 (- 1) (initial_rx_context example_config))
       = UpdateTimeout
   \<and> last (snd (await_update example_config quiet_env 1 (initial_rx_context example_config)))
       = Print timeout_msg"
proof -
  have lt: "(1 :: c_uint) < num_gain_changes example_config"
    by (simp add: example_config_def)
  have ok: "update_result ((\<lambda>n. quiet_env) (1 :: c_uint)) = sdrplay_api_Success"
    by (simp add: quiet_env_def)
  have au: "await_update example_config ((\<lambda>n. quiet_env) (1 :: c_uint)) 1 (initial_rx_context example_config)
      = (fst (await_update example_config quiet_env 1 (initial_rx_context example_config)),
         snd (await_update example_config quiet_env 1 (initial_rx_context example_config)))"
    by simp
  have q: "(\<forall>d\<in>set (during_update quiet_env). grChanged (fst d) = 0)
          \<and> (\<forall>i<UpdateTimeout. \<forall>d\<in>set (during_poll quiet_env i). grChanged (fst d) = 0)
          \<and> (\<forall>d\<in>set (after_poll quiet_env). grChanged (fst d) = 0)"
    by (simp add: quiet_env_def)
  from timeout_warning_iff_flag_clear [of 1 example_config "\<lambda>n. quiet_env", OF lt _ ok au, OF issue_update_quiet] q
  show ?thesis
    using lt ok by (simp add: issue_update_quiet)
qed

text \<open>
  C3 (as stated, refuted). With the device that signals from inside
  \<open>sdrplay_api_Update\<close> the flag is set when the wait loop is entered, and the loop
  does not leave early.
\<close>

theorem synchronous_signal_not_seen_as_edge:
  "gain_reduction_changed (fst (the (issue_update example_config synchronous_env 1
                                       (initial_rx_context example_config)))) \<noteq> 0
   \<and> \<not> fst (wait_for_gain_change (during_poll synchronous_env) 0 (- 1)
          (fst (the (issue_update example_config synchronous_env 1 (initial_rx_context example_config)))))
        < UpdateTimeout"
proof -
  have "update_result synchronous_env = sdrplay_api_Success"
    by (simp add: synchronous_env_def quiet_env_def)
  from one_gain_change_flag_set(1) [OF issue_update_synchronous this]
  show ?thesis
    by (simp add: issue_update_synchronous)
qed

text \<open>
  C3 (amended). When a delivery made between the reset and the first read of the wait
  loop carries a non-zero \<open>grChanged\<close>, the flag is set at the entry of the loop, the
  loop runs to the bound of 10000 iterations without leaving early, the iteration ends
  with \<open>Continue\<close> and no timeout warning is logged.
\<close>

theorem synchronous_signal_runs_to_bound:
  assumes iu: "issue_update cfg ce ngc c = Some (c3, start)"
    and ok: "update_result ce = sdrplay_api_Success"
    and d: "d \<in> set (during_update ce)"
    and g: "grChanged (fst d) \<noteq> 0"
  shows "gain_reduction_changed c3 \<noteq> 0
     \<and> fst (wait_for_gain_change (during_poll ce) 0 (- 1) c3) = UpdateTimeout
     \<and> fst (one_gain_change cfg ce ngc c) = Continue
     \<and> Print timeout_msg \<notin> set (snd (snd (one_gain_change cfg ce ngc c)))"
proof -
  have fl: "gain_reduction_changed c3 \<noteq> 0"
    unfolding issue_update_context [OF iu] using d g by (rule deliver_flag_signal)
  with one_gain_change_flag_set [OF iu ok fl] show ?thesis
    by simp
qed

theorem synchronous_signal_runs_to_bound_witness:
  "issue_update example_config synchronous_env 1 (initial_rx_context example_config)
     = Some (\<lparr>total_samples = 1000, next_sample_num = 1000, gain_reduction_changed = 1, verbose = 0\<rparr>,
             [Usleep 0, Write_gRdB 20, Write_LNAstate 1, Reset_flag, Call sdrplay_api_Update_Tuner_Gr])
   \<and> update_result synchronous_env = sdrplay_api_Success
   \<and> one_signal \<in> set (during_update synchronous_env)
   \<and> grChanged (fst one_signal) \<noteq> 0
   \<and> fst (wait_for_gain_change (during_poll synchronous_env) 0 (- 1)
        \<lparr>total_samples = 1000, next_sample_num = 1000, gain_reduction_changed = 1, verbose = 0\<rparr>)
       = UpdateTimeout
   \<and> fst (one_gain_change example_config synchronous_env 1 (initial_rx_context example_config)) = Continue
   \<and> Print timeout_msg \<notin> set (snd (snd (one_gain_change example_config synchronous_env 1
                                             (initial_rx_context example_config))))"
proof -
  have ok: "update_result synchronous_env = sdrplay_api_Success"
    by (simp add: synchronous_env_def quiet_env_def)
  have d: "one_signal \<in> set (during_update synchronous_env)"
    by (simp add: synchronous_env_def quiet_env_def)
  have g: "grChanged (fst one_signal) \<noteq> 0"
    by (simp add: one_signal_def)
  from synchronous_signal_runs_to_bound [OF issue_update_synchronous ok d g]
  show ?thesis
    using ok d g by (simp add: issue_update_synchronous)
qed

text \<open>
  C4 (the code at \<open>-n 3\<close>). With a change count of 3 and a device that confirms every
  change during the first sleep of the wait loop, the loop over \<open>ngc\<close> runs for 1
  and 2 only: it issues two updates, not three. Each update comes right after one reset
  of the flag, and the second update comes after the wait loop of the first has ended.
\<close>

theorem three_changes_two_updates:
  "num_gain_changes example_config = 3
   \<and> snd (snd (gain_change_loop example_config cooperative_env 1 (initial_rx_context example_config)))
       = [Usleep 0, Write_gRdB 20, Write_LNAstate 1, Reset_flag, Call sdrplay_api_Update_Tuner_Gr, Usleep 1,
          Usleep 0, Write_gRdB 60, Write_LNAstate 0, Reset_flag, Call sdrplay_api_Update_Tuner_Gr, Usleep 1]
   \<and> count_list (snd (snd (gain_change_loop example_config cooperative_env 1
                              (initial_rx_context example_config))))
         (Call sdrplay_api_Update_Tuner_Gr) = 2"
proof -
  have n: "num_gain_changes example_config = 3"
    by (simp add: example_config_def)
  have ev: "snd (snd (gain_change_loop example_config cooperative_env 1 (initial_rx_context example_config)))
       = [Usleep 0, Write_gRdB 20, Write_LNAstate 1, Reset_flag, Call sdrplay_api_Update_Tuner_Gr, Usleep 1,
          Usleep 0, Write_gRdB 60, Write_LNAstate 0, Reset_flag, Call sdrplay_api_Update_Tuner_Gr, Usleep 1]"
    by (simp add: gain_change_loop.simps one_gain_change_def issue_update_def await_update_def
        next_gain_def array_mod_read_def ngRdBs_def nLNAstates_def example_config_def
        cooperative_env_def quiet_env_def initial_rx_context_def rx_callback_def
        wait_step wait_break_now UpdateTimeout_def ProgressEveryNGainChanges_def)
  show ?thesis
    by (simp add: n ev)
qed

text \<open>
  C5 (as stated, refuted). With \<open>-l 0,300\<close> the change index 1 selects the LNA
  state 300, and the store into the 8-bit field \<open>gain.LNAstate\<close> leaves 44 there: the
  pending LNA state written before the update is not \<open>LNAstates[1 mod 2]\<close>.
\<close>

theorem lna_store_is_narrowed:
  "LNAstates wide_lna_config \<noteq> []
   \<and> LNAstates wide_lna_config ! (unat (1 :: c_uint) mod length (LNAstates wide_lna_config)) = 300
   \<and> issue_update wide_lna_config quiet_env 1 (initial_rx_context wide_lna_config)
       = Some (initial_rx_context wide_lna_config,
               [Usleep 0, Write_gRdB 20, Write_LNAstate 44, Reset_flag,
                Call sdrplay_api_Update_Tuner_Gr])
   \<and> unat (44 :: c_uchar) \<noteq> unat (300 :: c_int)"
proof -
  have "LNAstates wide_lna_config = [0, 300]"
    by (simp add: wide_lna_config_def)
  moreover have "ucast (300 :: c_int) = (44 :: c_uchar)"
    by simp
  then have "issue_update wide_lna_config quiet_env 1 (initial_rx_context wide_lna_config)
       = Some (initial_rx_context wide_lna_config,
               [Usleep 0, Write_gRdB 20, Write_LNAstate 44, Reset_flag,
                Call sdrplay_api_Update_Tuner_Gr])"
    by (simp add: issue_update_def next_gain_def array_mod_read_def ngRdBs_def nLNAstates_def
      wide_lna_config_def example_config_def quiet_env_def initial_rx_context_def)
  ultimately show ?thesis
    by simp
qed

text \<open>
  C5 (amended). For non-empty lists whose lengths fit a C \<open>int\<close> and every change
  index \<open>ngc\<close>, the selected pair is \<open>gRdBs[ngc mod length]\<close> and
  \<open>LNAstates[ngc mod length]\<close>, each list with its own length. The two stores just
  before the reset of the flag and the update put the selected gain reduction into
  \<open>gain.gRdB\<close> and the selected LNA state, reduced modulo 256, into the 8-bit field
  \<open>gain.LNAstate\<close>; an LNA state from 0 to 255 is stored as it is. The selection
  depends on the lists and the index only. With \<open>-g 40,20,60 -l 0,1\<close> the index 5
  selects 60 and 1.
\<close>

theorem next_gain_cycles_through_lists:
  assumes "gRdBs cfg \<noteq> []" and "length (gRdBs cfg) < 2 ^ 31"
    and "LNAstates cfg \<noteq> []" and "length (LNAstates cfg) < 2 ^ 31"
  shows "next_gain cfg ngc
           = Some (gRdBs cfg ! (unat ngc mod length (gRdBs cfg)),
                   LNAstates cfg ! (unat ngc mod length (LNAstates cfg)))
     \<and> (\<exists>c3 e1 e3. issue_update cfg ce ngc c
           = Some (c3, Usleep (wait_time cfg) # e1 @
                       [Write_gRdB (gRdBs cfg ! (unat ngc mod length (gRdBs cfg))),
                        Write_LNAstate (ucast (LNAstates cfg ! (unat ngc mod length (LNAstates cfg)))),
                        Reset_flag, Call sdrplay_api_Update_Tuner_Gr] @ e3)
         \<and> (\<forall>e\<in>set (e1 @ e3). callback_event e))
     \<and> unat (ucast (LNAstates cfg ! (unat ngc mod length (LNAstates cfg))) :: c_uchar)
         = unat (LNAstates cfg ! (unat ngc mod length (LNAstates cfg))) mod 256
     \<and> (unat (LNAstates cfg ! (unat ngc mod length (LNAstates cfg))) < 256 \<longrightarrow>
          unat (ucast (LNAstates cfg ! (unat ngc mod length (LNAstates cfg))) :: c_uchar)
            = unat (LNAstates cfg ! (unat ngc mod length (LNAstates cfg))))"
proof -
  let ?l = "LNAstates cfg ! (unat ngc mod length (LNAstates cfg))"
  have ng: "next_gain cfg ngc
           = Some (gRdBs cfg ! (unat ngc mod length (gRdBs cfg)), ?l)"
    using assms by (simp add: next_gain_def ngRdBs_def nLNAstates_def array_mod_read_in_range)
  let ?e1 = "snd (deliver (during_wait ce) c)"
  let ?c2 = "(fst (deliver (during_wait ce) c))\<lparr>gain_reduction_changed := 0\<rparr>"
  let ?e3 = "snd (deliver (during_update ce) ?c2)"
  have "issue_update cfg ce ngc c
           = Some (fst (deliver (during_update ce) ?c2), Usleep (wait_time cfg) # ?e1 @
                       [Write_gRdB (gRdBs cfg ! (unat ngc mod length (gRdBs cfg))),
                        Write_LNAstate (ucast ?l),
                        Reset_flag, Call sdrplay_api_Update_Tuner_Gr] @ ?e3)"
    by (simp add: ng issue_update_unfold)
  moreover have "\<forall>e\<in>set (?e1 @ ?e3). callback_event e"
    using deliver_events by auto
  ultimately have stores: "\<exists>c3 e1 e3. issue_update cfg ce ngc c
           = Some (c3, Usleep (wait_time cfg) # e1 @
                       [Write_gRdB (gRdBs cfg ! (unat ngc mod length (gRdBs cfg))),
                        Write_LNAstate (ucast ?l),
                        Reset_flag, Call sdrplay_api_Update_Tuner_Gr] @ e3)
         \<and> (\<forall>e\<in>set (e1 @ e3). callback_event e)"
    by blast
  have narrow: "unat (ucast ?l :: c_uchar) = unat ?l mod 256"
    by (simp add: unsigned_ucast_eq take_bit_eq_mod)
  then have "unat ?l < 256 \<longrightarrow> unat (ucast ?l :: c_uchar) = unat ?l"
    by simp
  with ng stores narrow show ?thesis
    by blast
qed

theorem next_gain_cycles_through_lists_witness:
  "gRdBs example_config = [40, 20, 60] \<and> LNAstates example_config = [0, 1]
   \<and> next_gain example_config 5 = Some (60, 1)
   \<and> issue_update example_config quiet_env 5 (initial_rx_context example_config)
       = Some (initial_rx_context example_config,
               [Usleep 0, Write_gRdB 60, Write_LNAstate 1, Reset_flag, Call sdrplay_api_Update_Tuner_Gr])
   \<and> unat (1 :: c_int) < 256
   \<and> unat (ucast (1 :: c_int) :: c_uchar) = unat (1 :: c_int)
   \<and> LNAstates wide_lna_config = [0, 300]
   \<and> next_gain wide_lna_config 1 = Some (20, 300)
   \<and> unat (ucast (300 :: c_int) :: c_uchar) = 300 mod 256"
proof -
  have g: "gRdBs example_config = [40, 20, 60]" and l: "LNAstates example_config = [0, 1]"
    by (simp_all add: example_config_def)
  have wg: "gRdBs wide_lna_config = [40, 20, 60]" and wl: "LNAstates wide_lna_config = [0, 300]"
    by (simp_all add: wide_lna_config_def example_config_def)
  note t = next_gain_cycles_through_lists [of example_config 5 quiet_env "initial_rx_context example_config"]
  have i5: "LNAstates example_config ! (unat (5 :: c_uint) mod length (LNAstates example_config)) = 1"
    by (simp add: l numeral_2_eq_2 [symmetric])
  have "next_gain example_config 5 = Some (60, 1)"
    using t by (simp add: g l numeral_2_eq_2 [symmetric])
  moreover have small: "unat (1 :: c_int) < 256"
    by simp
  moreover have "unat (ucast (1 :: c_int) :: c_uchar) = unat (1 :: c_int)"
    using t small by (simp add: g l i5)
  moreover have "issue_update example_config quiet_env 5 (initial_rx_context example_config)
       = Some (initial_rx_context example_config,
               [Usleep 0, Write_gRdB 60, Write_LNAstate 1, Reset_flag, Call sdrplay_api_Update_Tuner_Gr])"
    by (simp add: issue_update_def next_gain_def array_mod_read_def ngRdBs_def nLNAstates_def
      example_config_def quiet_env_def initial_rx_context_def)
  moreover have "next_gain wide_lna_config 1 = Some (20, 300)
      \<and> unat (ucast (300 :: c_int) :: c_uchar) = 300 mod 256"
    using next_gain_cycles_through_lists [of wide_lna_config 1 quiet_env "initial_rx_context wide_lna_config"]
    by (simp add: wg wl)
  ultimately show ?thesis
    using g l wl by simp
qed

text \<open>
  C6. After a successful first \<open>sdrplay_api_Init\<close>, if any one of the fields read
  back differs from what was configured (sample rate, decimation enable and factor, IF
  type, bandwidth, gain reduction, LNA state, the DC and IQ correction parameters, centre
  frequency, tuner, RSPduo mode and RSPduo sample frequency), then \<open>main\<close> prints at
  least one "unexpected change" line, calls \<open>sdrplay_api_Uninit\<close>,
  \<open>sdrplay_api_ReleaseDevice\<close> and \<open>sdrplay_api_Close\<close>, and exits with status 1;
  \<open>sdrplay_api_Init\<close> is never called with \<open>rx_callback\<close>.
\<close>

theorem readback_mismatch_is_fatal:
  assumes ne: "gRdBs cfg \<noteq> []" "LNAstates cfg \<noteq> []"
    and init: "init_quick_result env = sdrplay_api_Success"
    and differs:
      "double_ne (fsFreq_fsHz d) (rsp_sample_rate cfg)
       \<or> decimation_enable d \<noteq> decimation_gt_1 cfg
       \<or> decimation_decimationFactor d \<noteq> decimation cfg
       \<or> tunerParams_ifType d \<noteq> if_frequency cfg
       \<or> tunerParams_bwType d \<noteq> if_bandwidth cfg
       \<or> gain_gRdB d \<noteq> gRdBs cfg ! 0
       \<or> gain_LNAstate d \<noteq> LNAstates cfg ! 0
       \<or> dcOffset_DCenable d \<noteq> DCenable cfg
       \<or> dcOffset_IQenable d \<noteq> IQenable cfg
       \<or> dcOffsetTuner_dcCal d \<noteq> dcCal cfg
       \<or> dcOffsetTuner_speedUp d \<noteq> speedUp cfg
       \<or> dcOffsetTuner_trackTime d \<noteq> trackTime cfg
       \<or> dcOffsetTuner_refreshRateTime d \<noteq> refreshRateTime cfg
       \<or> double_ne (rfFreq_rfHz d) (frequency cfg)
       \<or> tuner d \<noteq> sdrplay_api_Tuner_A
       \<or> (if hwVer d = SDRPLAY_RSPduo_ID
           then rspDuoMode d \<noteq> sdrplay_api_RspDuoMode_Single_Tuner
           else rspDuoMode d \<noteq> sdrplay_api_RspDuoMode_Unknown)
       \<or> double_ne (rspDuoSampleFreq d) (Finite 0)"
  shows "snd (main_from_quick_check cfg d env) = Some 1
     \<and> Call sdrplay_api_Init_rx_callback \<notin> set (fst (main_from_quick_check cfg d env))
     \<and> (\<exists>ms. ms \<noteq> [] \<and> (\<forall>m\<in>set ms. \<exists>g. m = unexpected_change_msg g)
           \<and> fst (main_from_quick_check cfg d env) =
               Call sdrplay_api_Init_no_callbacks # Print settings_msg # map Print ms @
               [Call sdrplay_api_Uninit, Call sdrplay_api_ReleaseDevice, Call sdrplay_api_Close])"
proof -
  have bad: "\<not> fst (readback_check cfg d)"
    unfolding readback_check_ok_iff using differs by blast
  note m = main_from_quick_check_rejected [OF ne init bad]
  have "snd (readback_check cfg d) \<noteq> []"
    using readback_check_nonempty [of cfg d] bad by simp
  then have "\<exists>ms. ms \<noteq> [] \<and> (\<forall>m\<in>set ms. \<exists>g. m = unexpected_change_msg g)
           \<and> fst (main_from_quick_check cfg d env) =
               Call sdrplay_api_Init_no_callbacks # Print settings_msg # map Print ms @
               [Call sdrplay_api_Uninit, Call sdrplay_api_ReleaseDevice, Call sdrplay_api_Close]"
    using readback_check_messages [of cfg d] by (intro exI [of _ "snd (readback_check cfg d)"]) (simp add: m)
  moreover have "Call sdrplay_api_Init_rx_callback \<notin> set (fst (main_from_quick_check cfg d env))"
    by (auto simp: m)
  ultimately show ?thesis
    by (simp add: m)
qed

theorem readback_mismatch_is_fatal_witness:
  "gRdBs example_config \<noteq> [] \<and> LNAstates example_config \<noteq> []
   \<and> init_quick_result cooperative_main_env = sdrplay_api_Success
   \<and> double_ne (rfFreq_rfHz clamped_device) (frequency example_config)
   \<and> main_from_quick_check example_config clamped_device cooperative_main_env
       = ([Call sdrplay_api_Init_no_callbacks, Print settings_msg, Print (unexpected_change_msg F_rfHz),
           Call sdrplay_api_Uninit, Call sdrplay_api_ReleaseDevice, Call sdrplay_api_Close], Some 1)
   \<and> Call sdrplay_api_Init_rx_callback
       \<notin> set (fst (main_from_quick_check example_config clamped_device cooperative_main_env))"
proof -
  have ne: "gRdBs example_config \<noteq> []" "LNAstates example_config \<noteq> []"
    by (simp_all add: example_config_def)
  have init: "init_quick_result cooperative_main_env = sdrplay_api_Success"
    by (simp add: cooperative_main_env_def)
  have d: "double_ne (rfFreq_rfHz clamped_device) (frequency example_config)"
    by (simp add: double_ne_def clamped_device_def example_config_def)
  have ev: "main_from_quick_check example_config clamped_device cooperative_main_env
       = ([Call sdrplay_api_Init_no_callbacks, Print settings_msg, Print (unexpected_change_msg F_rfHz),
           Call sdrplay_api_Uninit, Call sdrplay_api_ReleaseDevice, Call sdrplay_api_Close], Some 1)"
    by (simp add: main_from_quick_check_def readback_check_def unexpected_def double_ne_def
        decimation_gt_1_def clamped_device_def configured_device_def example_config_def
        cooperative_main_env_def)
  from readback_mismatch_is_fatal [of example_config cooperative_main_env clamped_device, OF ne init] d
  have "Call sdrplay_api_Init_rx_callback
       \<notin> set (fst (main_from_quick_check example_config clamped_device cooperative_main_env))"
    by blast
  then show ?thesis
    using ne init d ev by simp
qed

text \<open>
  C7 (as stated, refuted). After a first delivery of 1000 samples from index
  \<open>0xfffffc17\<close> the recorded next index is \<open>0xffffffff\<close>. The next delivery
  starts at index 5, which differs from the recorded index, and no warning is logged.
\<close>

theorem jump_warning_counterexample:
  "next_sample_num (first_delivery 0xfffffc17 1000) = 0xffffffff
   \<and> firstSampleNum (samples_from 5) \<noteq> next_sample_num (first_delivery 0xfffffc17 1000)
   \<and> snd (rx_callback (samples_from 5) 1000 0 (first_delivery 0xfffffc17 1000)) = []"
  by (simp add: first_delivery_def samples_from_def idle_context_def rx_callback_def)

text \<open>
  C7 (amended). A callback logs the jump warning if and only if the stored next index is
  not \<open>0xffffffff\<close> and differs from the delivered first sample index. After every
  callback the stored next index is the first sample index plus the sample count, modulo
  \<open>2^32\<close>. After a delivery of 1000 samples from index 0, a delivery from index 1000
  logs no warning and a delivery from index 2000 logs one.
\<close>

theorem jump_warning_iff:
  "((\<exists>a b. jump_msg a b \<in> set (snd (rx_callback params numSamples reset c)))
      = (next_sample_num c \<noteq> 0xffffffff \<and> firstSampleNum params \<noteq> next_sample_num c))
   \<and> next_sample_num (fst (rx_callback params numSamples reset c)) = firstSampleNum params + numSamples
   \<and> unat (firstSampleNum params + numSamples)
       = (unat (firstSampleNum params) + unat numSamples) mod 2 ^ 32
   \<and> snd (rx_callback (samples_from 1000) 500 0 (first_delivery 0 1000)) = []
   \<and> snd (rx_callback (samples_from 2000) 1000 0 (first_delivery 0 1000)) = [jump_msg 1000 2000]"
proof -
  have "(\<exists>a b. jump_msg a b \<in> set (snd (rx_callback params numSamples reset c)))
      = (next_sample_num c \<noteq> 0xffffffff \<and> firstSampleNum params \<noteq> next_sample_num c)"
    by (auto simp: rx_callback_def Let_def)
  moreover have "next_sample_num (fst (rx_callback params numSamples reset c)) = firstSampleNum params + numSamples"
    by (simp add: rx_callback_def Let_def)
  moreover have "unat (firstSampleNum params + numSamples)
       = (unat (firstSampleNum params) + unat numSamples) mod 2 ^ 32"
    by (simp add: unat_word_ariths)
  moreover have "snd (rx_callback (samples_from 1000) 500 0 (first_delivery 0 1000)) = []"
    by (simp add: first_delivery_def samples_from_def idle_context_def rx_callback_def)
  moreover have "snd (rx_callback (samples_from 2000) 1000 0 (first_delivery 0 1000)) = [jump_msg 1000 2000]"
    by (simp add: first_delivery_def samples_from_def idle_context_def rx_callback_def)
  ultimately show ?thesis by blast
qed

text \<open>
  C8. The callback stores the bitwise or of the flag and the delivered \<open>grChanged\<close>
  into the flag. So a flag that is non-zero stays non-zero through one callback, and
  through any sequence of callbacks: only the reset in \<open>main\<close> clears it.
\<close>

theorem callback_never_clears_flag:
  "gain_reduction_changed (fst (rx_callback params numSamples reset c))
     = gain_reduction_changed c OR grChanged params
   \<and> (gain_reduction_changed c \<noteq> 0 \<longrightarrow>
        gain_reduction_changed (fst (rx_callback params numSamples reset c)) \<noteq> 0)
   \<and> (gain_reduction_changed c \<noteq> 0 \<longrightarrow> gain_reduction_changed (fst (deliver ds c)) \<noteq> 0)"
proof (intro conjI impI)
  show "gain_reduction_changed (fst (rx_callback params numSamples reset c))
     = gain_reduction_changed c OR grChanged params"
    by (rule rx_callback_flag)
next
  assume "gain_reduction_changed c \<noteq> 0"
  then show "gain_reduction_changed (fst (rx_callback params numSamples reset c)) \<noteq> 0"
    by (rule rx_callback_flag_stays)
next
  assume "gain_reduction_changed c \<noteq> 0"
  then show "gain_reduction_changed (fst (deliver ds c)) \<noteq> 0"
    by (rule deliver_flag_stays)
qed

theorem callback_never_clears_flag_witness:
  "gain_reduction_changed stale_context \<noteq> 0
   \<and> gain_reduction_changed (fst (rx_callback (fst quiet_delivery) 1000 0 stale_context)) = 1
   \<and> gain_reduction_changed (fst (deliver [quiet_delivery, one_signal, quiet_delivery] stale_context)) \<noteq> 0"
proof -
  have h: "gain_reduction_changed stale_context \<noteq> 0"
    by (simp add: stale_context_def)
  have "gain_reduction_changed (fst (rx_callback (fst quiet_delivery) 1000 0 stale_context)) = 1"
    using callback_never_clears_flag [of "fst quiet_delivery" 1000 0 stale_context]
    by (simp add: stale_context_def quiet_delivery_def)
  moreover have "gain_reduction_changed (fst (deliver [quiet_delivery, one_signal, quiet_delivery] stale_context)) \<noteq> 0"
    using callback_never_clears_flag [of "fst quiet_delivery" 1000 0 stale_context
        "[quiet_delivery, one_signal, quiet_delivery]"] h
    by blast
  ultimately show ?thesis using h by simp
qed

text \<open>
  C9. While the stored next index is \<open>0xffffffff\<close>, \<open>rx_callback\<close> logs no jump
  warning and \<open>rx_callback_record\<close> logs no dropped samples, whatever the delivered
  first sample index is. That includes a stored index that a previous delivery produced:
  a first sample index and a count that add up to \<open>0xffffffff\<close>.
\<close>

theorem sentinel_suppresses_detection:
  "(next_sample_num c = 0xffffffff \<longrightarrow>
      (\<forall>a b. jump_msg a b \<notin> set (snd (rx_callback params numSamples reset c))))
   \<and> (firstSampleNum params0 + numSamples0 = 0xffffffff \<longrightarrow>
      (\<forall>a b. jump_msg a b \<notin> set (snd (rx_callback params numSamples reset
                                       (fst (rx_callback params0 numSamples0 reset0 c))))))
   \<and> (next_sample_num_rec rc = 0xffffffff \<longrightarrow>
        dropped_check (next_sample_num_rec rc) params = []
        \<and> (\<forall>rc' evs v. rx_callback_record now uninit nwritten xi xq params numSamples reset rc = Some (rc', evs)
              \<longrightarrow> Log (dropped_msg v) \<notin> set evs))"
proof (intro conjI impI allI)
  fix a b
  assume "next_sample_num c = 0xffffffff"
  then show "jump_msg a b \<notin> set (snd (rx_callback params numSamples reset c))"
    by (simp add: rx_callback_def Let_def)
next
  fix a b
  assume "firstSampleNum params0 + numSamples0 = 0xffffffff"
  then have "next_sample_num (fst (rx_callback params0 numSamples0 reset0 c)) = 0xffffffff"
    by (simp add: rx_callback_def Let_def)
  then show "jump_msg a b \<notin> set (snd (rx_callback params numSamples reset
                                       (fst (rx_callback params0 numSamples0 reset0 c))))"
    by (simp add: rx_callback_def [of params] Let_def)
next
  assume "next_sample_num_rec rc = 0xffffffff"
  then show "dropped_check (next_sample_num_rec rc) params = []"
    by (simp add: dropped_check_sentinel)
next
  fix rc' evs v
  assume s: "next_sample_num_rec rc = 0xffffffff"
    and r: "rx_callback_record now uninit nwritten xi xq params numSamples reset rc = Some (rc', evs)"
  show "Log (dropped_msg v) \<notin> set evs"
    using rx_callback_record_events [OF r, of "dropped_msg v"] s
    by (auto simp: dropped_check_sentinel)
qed

theorem sentinel_suppresses_detection_witness:
  "next_sample_num idle_context = 0xffffffff
   \<and> (\<forall>a b. jump_msg a b \<notin> set (snd (rx_callback (samples_from 5) 1000 0 idle_context)))
   \<and> firstSampleNum (samples_from 0xfffffc17) + 1000 = 0xffffffff
   \<and> (\<forall>a b. jump_msg a b \<notin> set (snd (rx_callback (samples_from 5) 1000 0
                  (fst (rx_callback (samples_from 0xfffffc17) 1000 0 idle_context)))))
   \<and> next_sample_num_rec idle_record_context = 0xffffffff
   \<and> (\<exists>rc'. rx_callback_record start_of_day (\<lambda>i. 0) 0 [1, 2] [3, 4] (samples_from 5) 2 0
               idle_record_context = Some (rc', []))
   \<and> (\<forall>v. Log (dropped_msg v) \<notin> set (snd (the (rx_callback_record start_of_day (\<lambda>i. 0) 0 [1, 2] [3, 4]
               (samples_from 5) 2 0 idle_record_context))))"
proof -
  have h1: "next_sample_num idle_context = 0xffffffff"
    by (simp add: idle_context_def)
  have h2: "firstSampleNum (samples_from 0xfffffc17) + 1000 = 0xffffffff"
    by (simp add: samples_from_def)
  have h3: "next_sample_num_rec idle_record_context = 0xffffffff"
    by (simp add: idle_record_context_def)
  have r: "\<exists>rc'. rx_callback_record start_of_day (\<lambda>i. 0) 0 [1, 2] [3, 4] (samples_from 5) 2 0
               idle_record_context = Some (rc', [])"
    by (simp add: rx_callback_record_def idle_record_context_def samples_from_def
        dropped_check_def min_max_loop.simps Let_def)
  then obtain rc' where r': "rx_callback_record start_of_day (\<lambda>i. 0) 0 [1, 2] [3, 4] (samples_from 5) 2 0
               idle_record_context = Some (rc', [])" ..
  note t = sentinel_suppresses_detection [of idle_context "samples_from 5" 1000 0
      "samples_from 0xfffffc17" 1000 0 idle_record_context start_of_day "\<lambda>i. 0" 0 "[1, 2]" "[3, 4]"]
  from t h1 have "\<forall>a b. jump_msg a b \<notin> set (snd (rx_callback (samples_from 5) 1000 0 idle_context))"
    by blast
  moreover from t h2 have "\<forall>a b. jump_msg a b \<notin> set (snd (rx_callback (samples_from 5) 1000 0
                  (fst (rx_callback (samples_from 0xfffffc17) 1000 0 idle_context))))"
    by blast
  ultimately show ?thesis
    using h1 h2 h3 r by (simp add: r')
qed

text \<open>
  C10. When \<open>numSamples\<close> is at most 2048 (and \<open>xi\<close> and \<open>xq\<close> hold that
  many samples), the two loops store at the indices \<open>2*i\<close> and \<open>2*i+1\<close> for
  \<open>i < numSamples\<close>, all of them below 4096, so no store leaves the buffer; the
  buffer then holds \<open>xi[i]\<close> at \<open>2*i\<close> and \<open>xq[i]\<close> at \<open>2*i+1\<close>; and the
  count passed to \<open>write\<close> is \<open>numSamples * 2 * 2\<close> bytes, \<open>sizeof(short)\<close> being 2.
  With an open output file the callback makes that call of \<open>write\<close>.
\<close>

theorem interleave_within_buffer:
  assumes n: "unat numSamples \<le> 2048"
    and xi: "unat numSamples \<le> length xi" and xq: "unat numSamples \<le> length xq"
  shows "\<exists>bytes count. write_samples uninit xi xq numSamples = Some (bytes, count)
          \<and> unat count = unat numSamples * 2 * 2
          \<and> length bytes = 2 * unat numSamples
          \<and> (\<forall>i < unat numSamples.
                sample_index i 0 = 2 * i \<and> sample_index i 1 = 2 * i + 1 \<and> 2 * i + 1 < 4096
                \<and> bytes ! (2 * i) = xi ! i \<and> bytes ! (2 * i + 1) = xq ! i)
          \<and> (0 <s output_fd rc \<longrightarrow>
                (\<exists>rc' evs. rx_callback_record now uninit nwritten xi xq params numSamples reset rc
                              = Some (rc', evs)
                            \<and> Write_file (output_fd rc) bytes count \<in> set evs))"
proof -
  from write_samples_result [OF n xi xq, of uninit]
  obtain samples where w: "write_samples uninit xi xq numSamples
             = Some (take (2 * unat numSamples) samples, ucast (numSamples * 2) * 2)"
      and len: "length samples = 4096"
      and el: "\<forall>i < unat numSamples. samples ! (2 * i) = xi ! i \<and> samples ! (2 * i + 1) = xq ! i"
    by blast
  let ?bytes = "take (2 * unat numSamples) samples"
  let ?count = "ucast (numSamples * 2) * 2 :: c_size_t"
  have c: "unat ?count = unat numSamples * 2 * 2"
    by (rule count_small [OF n])
  have lb: "length ?bytes = 2 * unat numSamples"
    using n len by simp
  have idx: "\<forall>i < unat numSamples.
                sample_index i 0 = 2 * i \<and> sample_index i 1 = 2 * i + 1 \<and> 2 * i + 1 < 4096
                \<and> ?bytes ! (2 * i) = xi ! i \<and> ?bytes ! (2 * i + 1) = xq ! i"
  proof (intro allI impI)
    fix i assume i: "i < unat numSamples"
    then have "2 * i + 1 < 4096" using n by simp
    moreover from this have "sample_index i 0 = 2 * i" "sample_index i 1 = 2 * i + 1"
      using sample_index_small [of i 0] sample_index_small [of i 1] by simp_all
    moreover have "?bytes ! (2 * i) = xi ! i" "?bytes ! (2 * i + 1) = xq ! i"
      using el i by simp_all
    ultimately show "sample_index i 0 = 2 * i \<and> sample_index i 1 = 2 * i + 1 \<and> 2 * i + 1 < 4096
                \<and> ?bytes ! (2 * i) = xi ! i \<and> ?bytes ! (2 * i + 1) = xq ! i"
      by simp
  qed
  have cb: "\<exists>rc' evs. rx_callback_record now uninit nwritten xi xq params numSamples reset rc
                              = Some (rc', evs)
                            \<and> Write_file (output_fd rc) ?bytes ?count \<in> set evs"
    if fd: "0 <s output_fd rc"
  proof -
    obtain mi where mi: "min_max_loop xi (unat numSamples) 0 (SHRT_MAX, SHRT_MIN) = Some mi"
      using min_max_loop_defined [OF xi] by blast
    obtain mq where mq: "min_max_loop xq (unat numSamples) 0 (SHRT_MAX, SHRT_MIN) = Some mq"
      using min_max_loop_defined [OF xq] by blast
    show ?thesis
      using fd by (simp add: rx_callback_record_def Let_def mi mq w case_prod_unfold)
  qed
  show ?thesis
    using w c lb idx cb by blast
qed

theorem interleave_within_buffer_witness:
  "unat (2 :: c_uint) \<le> 2048 \<and> unat (2 :: c_uint) \<le> length [1, 2 :: c_short]
   \<and> 0 <s output_fd (idle_record_context\<lparr>output_fd := 3\<rparr>)
   \<and> (\<exists>bytes count. write_samples (\<lambda>i. 0) [1, 2] [3, 4] 2 = Some (bytes, count)
          \<and> unat count = 8 \<and> length bytes = 4
          \<and> bytes ! 0 = 1 \<and> bytes ! 1 = 3 \<and> bytes ! 2 = 2 \<and> bytes ! 3 = 4
          \<and> (\<exists>rc' evs. rx_callback_record start_of_day (\<lambda>i. 0) 8 [1, 2] [3, 4] (samples_from 0) 2 0
                          (idle_record_context\<lparr>output_fd := 3\<rparr>) = Some (rc', evs)
                       \<and> Write_file 3 bytes count \<in> set evs))"
proof -
  have n: "unat (2 :: c_uint) \<le> 2048" by simp
  have xi: "unat (2 :: c_uint) \<le> length [1, 2 :: c_short]" by simp
  have xq: "unat (2 :: c_uint) \<le> length [3, 4 :: c_short]" by simp
  have fd: "0 <s output_fd (idle_record_context\<lparr>output_fd := 3\<rparr>)"
    by (simp add: word_sless_alt)
  from interleave_within_buffer [OF n xi xq, of "\<lambda>i. 0" "idle_record_context\<lparr>output_fd := 3\<rparr>"
      start_of_day 8 "samples_from 0" 0]
  obtain bytes count where r: "write_samples (\<lambda>i. 0) [1, 2] [3, 4] 2 = Some (bytes, count)"
      "unat count = unat (2 :: c_uint) * 2 * 2" "length bytes = 2 * unat (2 :: c_uint)"
      "\<forall>i < unat (2 :: c_uint). bytes ! (2 * i) = [1, 2 :: c_short] ! i \<and> bytes ! (2 * i + 1) = [3, 4 :: c_short] ! i"
      "0 <s output_fd (idle_record_context\<lparr>output_fd := 3\<rparr>) \<longrightarrow>
         (\<exists>rc' evs. rx_callback_record start_of_day (\<lambda>i. 0) 8 [1, 2] [3, 4] (samples_from 0) 2 0
                          (idle_record_context\<lparr>output_fd := 3\<rparr>) = Some (rc', evs)
                       \<and> Write_file (output_fd (idle_record_context\<lparr>output_fd := 3\<rparr>)) bytes count \<in> set evs)"
    by blast
  have "bytes ! 0 = 1 \<and> bytes ! 1 = 3" using r(4) [rule_format, of 0] by simp
  moreover have "bytes ! 2 = 2 \<and> bytes ! 3 = 4" using r(4) [rule_format, of 1] by simp
  moreover have "\<exists>rc' evs. rx_callback_record start_of_day (\<lambda>i. 0) 8 [1, 2] [3, 4] (samples_from 0) 2 0
                          (idle_record_context\<lparr>output_fd := 3\<rparr>) = Some (rc', evs)
                       \<and> Write_file 3 bytes count \<in> set evs"
    using r(5) fd by simp
  ultimately show ?thesis
    using n xi fd r(1,2,3) by simp
qed

end
